theory Spec2Isabelle
  imports Main
begin

section \<open>Data model of the interview session\<close>

text \<open>
  The session component (\<^verbatim>\<open>src/components/interview-session.tsx\<close>) is a React function
  component.  Its \<^verbatim>\<open>useState\<close> variables are constants of the render in which a handler
  was created: a handler, a timer callback, an utterance callback or the continuation of an
  awaited fetch reads the values of the render that created it, and writes through the
  setters, which change the state the next render will see.  The model keeps the two apart:
  a \<open>Render\<close> is one snapshot of the state variables, every function of the component takes
  the render \<open>c\<close> it closes over, and the \<open>World\<close> holds the current state \<open>st\<close> together
  with everything that lives outside the renders (refs, the browser's timer table, the
  speech synthesis queue, fetches in flight).
\<close>

datatype Category = CatIntroduction | CatTechnical | CatBehavioral | CatFollowUp

record Question =
  qid :: nat
  qtext :: string
  category :: Category
  asked :: bool

record Response =
  questionId :: nat
  question :: string
  answer :: string
  timestamp :: nat
  duration :: nat

datatype InterviewPhase =
  Instructions | VoiceIntro | Introduction | Technical | Behavioral | Ending | Feedback

text \<open>The argument type \<^verbatim>\<open>"introduction" | "technical" | "behavioral"\<close> of the question fetches.\<close>

datatype QuestionPhase = PIntroduction | PTechnical | PBehavioral

fun phaseCategory :: "QuestionPhase \<Rightarrow> Category" where
  "phaseCategory PIntroduction = CatIntroduction"
| "phaseCategory PTechnical = CatTechnical"
| "phaseCategory PBehavioral = CatBehavioral"

record QuestionCounts =
  introduction :: nat
  technical :: nat
  behavioral :: nat

datatype PermissionStatus = Granted | Denied | Prompt | Unknown

record Render =
  isCameraOn :: bool
  isMicOn :: bool
  currentQuestion :: "Question option"
  questions :: "Question list"
  responses :: "Response list"
  isListening :: bool
  interviewPhase :: InterviewPhase
  isLoading :: bool
  aiSpeaking :: bool
  microphoneError :: "string option"
  cameraError :: "string option"
  cameraPermissionStatus :: PermissionStatus
  isVideoLoaded :: bool
  isInterviewEnded :: bool
  questionCounts :: QuestionCounts
  currentQuestionIndex :: nat

definition mkQuestion :: "nat \<Rightarrow> string \<Rightarrow> Category \<Rightarrow> Question" where
  "mkQuestion i t c = \<lparr>qid = i, qtext = t, category = c, asked = False\<rparr>"

fun fallbackQuestions :: "QuestionPhase \<Rightarrow> Question list" where
  "fallbackQuestions PIntroduction =
     [mkQuestion 1 ''Please introduce yourself - tell me your name, educational background, and a brief overview of your professional experience.'' CatIntroduction,
      mkQuestion 2 ''Can you walk me through your current role and what you do on a day-to-day basis?'' CatIntroduction,
      mkQuestion 3 ''Tell me about your educational background and how it led you to your current field.'' CatIntroduction]"
| "fallbackQuestions PTechnical =
     [mkQuestion 4 ''Describe your experience with the main technologies mentioned in the job description.'' CatTechnical,
      mkQuestion 5 ''How would you approach solving a complex technical problem?'' CatTechnical,
      mkQuestion 6 ''What programming languages are you most comfortable with?'' CatTechnical,
      mkQuestion 7 ''Explain a technical project you're proud of.'' CatTechnical,
      mkQuestion 8 ''How do you stay updated with new technologies?'' CatTechnical]"
| "fallbackQuestions PBehavioral =
     [mkQuestion 9 ''What attracted you to this specific position and our company?'' CatBehavioral,
      mkQuestion 10 ''Tell me about a challenging project you worked on and how you overcame obstacles.'' CatBehavioral,
      mkQuestion 11 ''Describe a situation where you had to work with a difficult team member or handle conflict.'' CatBehavioral,
      mkQuestion 12 ''Where do you see yourself in the next 3-5 years, and how does this role align with your career goals?'' CatBehavioral]"

section \<open>The world outside the renders\<close>

text \<open>
  Callbacks are closures; they are kept as data.  \<open>OnComplete\<close> lists the three
  \<^verbatim>\<open>onComplete\<close> arguments the component passes to \<^verbatim>\<open>speakQuestion\<close>, \<open>TimerBody\<close> the
  callbacks it passes to \<^verbatim>\<open>createTimeout\<close>, which tracks the timer in \<^verbatim>\<open>timeoutsRef\<close>.  The
  camera code calls \<^verbatim>\<open>setTimeout\<close> itself: \<open>RetryInitializeCamera\<close> is the restart that
  \<^verbatim>\<open>requestCameraPermission\<close> registers, \<open>VideoLoadTimeout\<close> the five-second fallback of
  \<^verbatim>\<open>initializeCamera\<close>.  Every closure carries the render it was created in.
\<close>

datatype OnComplete = AfterInstructions | AfterTransition Question | AfterThankYou

datatype TimerBody =
    SpeakText string
  | StartListening
  | NextStep QuestionCounts "Response list"
  | ShowFeedback

datatype TimerFn =
    Tracked Render TimerBody
  | RetryInitializeCamera Render
  | VideoLoadTimeout Render nat

record Timer =
  tid :: nat
  due :: nat
  callback :: TimerFn

record Utterance =
  uid :: nat
  utext :: string
  cancelled :: bool
  handlers :: "(Render \<times> OnComplete option) option"

datatype Body = Malformed | Json "Question list option" "string option"

datatype FetchResult = Rejected | HttpResponse nat Body

datatype FetchCont =
    ForPhase QuestionPhase Render
  | ForTechnical Render
  | ForBehavioral Render
  | ForNextQuestion QuestionPhase Render

datatype TrackKind = VideoTrack | AudioTrack

record Track =
  trackId :: nat
  kind :: TrackKind
  enabled :: bool
  live :: bool

datatype Action =
    SynthCancel
  | SynthSpeak string
  | PostGenerateQuestions QuestionPhase
  | PostGenerateNextQuestion QuestionPhase nat "Response list"
  | BatchInstalled "Question list"
  | OnEnd

record World =
  st :: Render
  clock :: nat
  nextId :: nat
  timers :: "Timer list"
  timeoutsRef :: "nat list"
  intervals :: "nat list"
  postureCheckRef :: "nat option"
  tracks :: "Track list"
  streamRef :: "nat list option"
  synth :: "Utterance list"
  speechSynthRef :: "nat option"
  fetches :: "(nat \<times> FetchCont) list"
  mediaRequests :: "Render list"
  videoLoads :: "(nat \<times> Render) list"
  listenRender :: Render
  trace :: "Action list"

section \<open>Timers\<close>

definition createTimeout :: "Render \<Rightarrow> TimerBody \<Rightarrow> nat \<Rightarrow> World \<Rightarrow> World" where
  "createTimeout c b delay w =
     w\<lparr>nextId := nextId w + 1,
       timers := timers w @ [\<lparr>tid = nextId w, due = clock w + delay, callback = Tracked c b\<rparr>],
       timeoutsRef := timeoutsRef w @ [nextId w]\<rparr>"

definition setTimeoutRaw :: "TimerFn \<Rightarrow> nat \<Rightarrow> World \<Rightarrow> World" where
  "setTimeoutRaw f delay w =
     w\<lparr>nextId := nextId w + 1,
       timers := timers w @ [\<lparr>tid = nextId w, due = clock w + delay, callback = f\<rparr>]\<rparr>"

definition clearAllTimeouts :: "World \<Rightarrow> World" where
  "clearAllTimeouts w =
     w\<lparr>timers := filter (\<lambda>t. tid t \<notin> set (timeoutsRef w)) (timers w),
       timeoutsRef := []\<rparr>"

section \<open>Speech output\<close>

definition speechSynthesisCancel :: "World \<Rightarrow> World" where
  "speechSynthesisCancel w =
     w\<lparr>synth := map (\<lambda>u. u\<lparr>cancelled := True\<rparr>) (synth w),
       trace := trace w @ [SynthCancel]\<rparr>"

definition speakQuestion :: "Render \<Rightarrow> string \<Rightarrow> OnComplete option \<Rightarrow> World \<Rightarrow> World" where
  "speakQuestion c txt onComplete w =
     (if isInterviewEnded c then w
      else
        let w1 = w\<lparr>st := (st w)\<lparr>aiSpeaking := True\<rparr>\<rparr>;
            w2 = speechSynthesisCancel w1;
            u = \<lparr>uid = nextId w2, utext = txt, cancelled = False,
                 handlers = Some (c, onComplete)\<rparr>
        in w2\<lparr>nextId := nextId w2 + 1,
              speechSynthRef := Some (uid u),
              synth := synth w2 @ [u],
              trace := trace w2 @ [SynthSpeak txt]\<rparr>)"

section \<open>The operations of the session\<close>

definition instruction :: string where
  "instruction = ''\<newline>      Welcome to your AI-powered mock interview! I'm your virtual interviewer today. \<newline>      \<newline>      This interview has three phases: First, I'll ask some introduction questions to get to know you personally and professionally. Then, we'll move to technical questions about your skills. Finally, I'll ask behavioral questions about your experience.\<newline>      \<newline>      Please speak clearly. When you finish answering, stop speaking for 2 seconds and I'll move to the next question.\<newline>      \<newline>      Let's begin with the introduction phase. I'm excited to learn about you!\<newline>    ''"

definition thankYouMessage :: string where
  "thankYouMessage = ''\<newline>      Congratulations! You have successfully completed your mock interview. \<newline>      \<newline>      You answered all the questions across the three phases - introduction, technical, and behavioral. \<newline>      \<newline>      Thank you for your time and effort today. You demonstrated great professionalism throughout the interview process.\<newline>      \<newline>      I will now analyze all of your responses and provide you with detailed feedback, including your strengths, areas for improvement, and specific recommendations to help you excel in your future interviews.\<newline>      \<newline>      Please wait a moment while I prepare your comprehensive performance report.\<newline>    ''"

definition technicalTransitionMessage :: string where
  "technicalTransitionMessage = ''Great! Thank you for that introduction. Now let's move to the technical questions. These will focus on your technical skills and knowledge relevant to the position.''"

definition behavioralTransitionMessage :: string where
  "behavioralTransitionMessage = ''Excellent! Now for the final phase, I'll ask you some behavioral questions. These will help me understand your experience and how you handle different situations.''"

definition newFetch :: "FetchCont \<Rightarrow> Action \<Rightarrow> World \<Rightarrow> World" where
  \<comment> \<open>\<^verbatim>\<open>await fetch(...)\<close>: the request goes out, the rest of the function waits for the result\<close>
  "newFetch k a w =
     w\<lparr>nextId := nextId w + 1, fetches := fetches w @ [(nextId w, k)], trace := trace w @ [a]\<rparr>"

definition generateQuestionsForPhase :: "Render \<Rightarrow> QuestionPhase \<Rightarrow> World \<Rightarrow> World" where
  "generateQuestionsForPhase c phase w =
     (if isInterviewEnded c then w
      else newFetch (ForPhase phase c) (PostGenerateQuestions phase)
             (w\<lparr>st := (st w)\<lparr>isLoading := True\<rparr>\<rparr>))"

definition responseOk :: "nat \<Rightarrow> bool" where
  "responseOk status \<longleftrightarrow> 200 \<le> status \<and> status \<le> 299"

definition installBatch :: "Question list \<Rightarrow> World \<Rightarrow> World" where
  \<comment> \<open>\<^verbatim>\<open>setQuestions(qs); setCurrentQuestion(qs[0])\<close>\<close>
  "installBatch qs w =
     w\<lparr>st := (st w)\<lparr>questions := qs, currentQuestion := Some (hd qs)\<rparr>,
       trace := trace w @ [BatchInstalled qs]\<rparr>"

definition startPhaseBatch :: "Render \<Rightarrow> QuestionPhase \<Rightarrow> Question list \<Rightarrow> World \<Rightarrow> World" where
  \<comment> \<open>the three statements and the \<^verbatim>\<open>if (phase === "introduction")\<close> that each branch of
      \<^verbatim>\<open>generateQuestionsForPhase\<close> repeats\<close>
  "startPhaseBatch c phase qs w =
     (let w1 = installBatch qs w;
          w2 = w1\<lparr>st := (st w1)\<lparr>currentQuestionIndex := 0\<rparr>\<rparr>
      in if phase = PIntroduction then createTimeout c (SpeakText (qtext (hd qs))) 1000 w2 else w2)"

fun generateQuestionsForPhaseDone :: "Render \<Rightarrow> QuestionPhase \<Rightarrow> FetchResult \<Rightarrow> World \<Rightarrow> World" where
  "generateQuestionsForPhaseDone c phase (HttpResponse status (Json (Some (q # qs)) t)) w =
     (let w1 = (if responseOk status then startPhaseBatch c phase (q # qs) w
                else startPhaseBatch c phase (fallbackQuestions phase) w)
      in w1\<lparr>st := (st w1)\<lparr>isLoading := False\<rparr>\<rparr>)"
| "generateQuestionsForPhaseDone c phase r w =
     (let w1 = startPhaseBatch c phase (fallbackQuestions phase) w
      in w1\<lparr>st := (st w1)\<lparr>isLoading := False\<rparr>\<rparr>)"

definition generateNextQuestionInPhase ::
    "Render \<Rightarrow> QuestionPhase \<Rightarrow> Response list \<Rightarrow> World \<Rightarrow> World" where
  "generateNextQuestionInPhase c phase allResponses w =
     (if isInterviewEnded c then w
      else newFetch (ForNextQuestion phase c)
             (PostGenerateNextQuestion phase
                (case phase of PIntroduction \<Rightarrow> introduction (questionCounts c)
                 | PTechnical \<Rightarrow> technical (questionCounts c)
                 | PBehavioral \<Rightarrow> behavioral (questionCounts c))
                allResponses)
             (w\<lparr>st := (st w)\<lparr>isLoading := True\<rparr>\<rparr>))"

fun generateNextQuestionInPhaseDone ::
    "Render \<Rightarrow> QuestionPhase \<Rightarrow> FetchResult \<Rightarrow> World \<Rightarrow> World" where
  "generateNextQuestionInPhaseDone c phase (HttpResponse status (Json qs (Some t))) w =
     (let w1 =
        (if responseOk status \<and> t \<noteq> []
         then
           let newQuestion = \<lparr>qid = clock w, qtext = t, category = phaseCategory phase,
                                asked = False\<rparr>
           in createTimeout c (SpeakText (qtext newQuestion)) 1000
                (w\<lparr>st := (st w)\<lparr>currentQuestion := Some newQuestion,
                                  questions := questions (st w) @ [newQuestion],
                                  currentQuestionIndex := length (questions c)\<rparr>\<rparr>)
         else w)
      in w1\<lparr>st := (st w1)\<lparr>isLoading := False\<rparr>\<rparr>)"
| "generateNextQuestionInPhaseDone c phase r w = w\<lparr>st := (st w)\<lparr>isLoading := False\<rparr>\<rparr>"

definition handleResponse :: "Render \<Rightarrow> string \<Rightarrow> World \<Rightarrow> World" where
  "handleResponse c ans w =
     (case currentQuestion c of
        None \<Rightarrow> w
      | Some q \<Rightarrow>
          if isInterviewEnded c then w
          else
            let response = \<lparr>questionId = qid q, question = qtext q, answer = ans,
                              timestamp = clock w, duration = 0\<rparr>;
                newResponses = responses c @ [response];
                counts = questionCounts c;
                newCounts =
                  (if category q = CatIntroduction
                   then counts\<lparr>introduction := introduction counts + 1\<rparr>
                   else if category q = CatTechnical
                   then counts\<lparr>technical := technical counts + 1\<rparr>
                   else if category q = CatBehavioral
                   then counts\<lparr>behavioral := behavioral counts + 1\<rparr>
                   else counts);
                updatedQuestions =
                  map (\<lambda>x. if qid x = qid q then x\<lparr>asked := True\<rparr> else x) (questions c)
            in createTimeout c (NextStep newCounts newResponses) 2000
                 (w\<lparr>st := (st w)\<lparr>responses := newResponses, isListening := False,
                                   questionCounts := newCounts,
                                   questions := updatedQuestions\<rparr>\<rparr>))"

definition endInterview :: "Render \<Rightarrow> World \<Rightarrow> World" where
  "endInterview c w =
     (if isInterviewEnded c then w
      else speakQuestion c thankYouMessage (Some AfterThankYou)
             (w\<lparr>st := (st w)\<lparr>interviewPhase := Ending, currentQuestion := None,
                               isListening := False\<rparr>\<rparr>))"

definition askNextInPhase :: "Render \<Rightarrow> QuestionPhase \<Rightarrow> Response list \<Rightarrow> World \<Rightarrow> World" where
  \<comment> \<open>the branch \<^verbatim>\<open>counts.<phase> < budget\<close>, written three times in the source\<close>
  "askNextInPhase c phase allResponses w =
     (let nextIndex = currentQuestionIndex c + 1
      in if nextIndex < length (questions c)
         then createTimeout c (SpeakText (qtext (questions c ! nextIndex))) 1000
                (w\<lparr>st := (st w)\<lparr>currentQuestionIndex := nextIndex,
                                  currentQuestion := Some (questions c ! nextIndex)\<rparr>\<rparr>)
         else generateNextQuestionInPhase c phase allResponses w)"

definition determineNextStep :: "Render \<Rightarrow> QuestionCounts \<Rightarrow> Response list \<Rightarrow> World \<Rightarrow> World" where
  "determineNextStep c counts allResponses w =
     (if isInterviewEnded c then w
      else if interviewPhase c = Introduction then
        (if introduction counts < 3 then askNextInPhase c PIntroduction allResponses w
         else newFetch (ForTechnical c) (PostGenerateQuestions PTechnical)
                (w\<lparr>st := (st w)\<lparr>interviewPhase := Technical, currentQuestionIndex := 0,
                                  isLoading := True\<rparr>\<rparr>))
      else if interviewPhase c = Technical then
        (if technical counts < 5 then askNextInPhase c PTechnical allResponses w
         else newFetch (ForBehavioral c) (PostGenerateQuestions PBehavioral)
                (w\<lparr>st := (st w)\<lparr>interviewPhase := Behavioral, currentQuestionIndex := 0,
                                  isLoading := True\<rparr>\<rparr>))
      else if interviewPhase c = Behavioral then
        (if behavioral counts < 4 then askNextInPhase c PBehavioral allResponses w
         else endInterview c w)
      else w)"

definition announcePhase :: "Render \<Rightarrow> string \<Rightarrow> Question list \<Rightarrow> World \<Rightarrow> World" where
  \<comment> \<open>\<^verbatim>\<open>setQuestions; setCurrentQuestion; speakQuestion(transitionMessage, () => ...)\<close>\<close>
  "announcePhase c msg qs w =
     speakQuestion c msg (Some (AfterTransition (hd qs))) (installBatch qs w)"

fun transitionDone :: "Render \<Rightarrow> QuestionPhase \<Rightarrow> string \<Rightarrow> FetchResult \<Rightarrow> World \<Rightarrow> World" where
  "transitionDone c phase msg (HttpResponse status (Json qs t)) w =
     (if responseOk status
      then
        let batch = (case qs of Some (q # r) \<Rightarrow> q # r | _ \<Rightarrow> fallbackQuestions phase);
            w1 = installBatch batch w;
            w2 = w1\<lparr>st := (st w1)\<lparr>isLoading := False\<rparr>\<rparr>
        in speakQuestion c msg (Some (AfterTransition (hd batch))) w2
      else announcePhase c msg (fallbackQuestions phase) (w\<lparr>st := (st w)\<lparr>isLoading := False\<rparr>\<rparr>))"
| "transitionDone c phase msg r w =
     announcePhase c msg (fallbackQuestions phase) (w\<lparr>st := (st w)\<lparr>isLoading := False\<rparr>\<rparr>)"

definition giveVoiceInstructions :: "Render \<Rightarrow> World \<Rightarrow> World" where
  "giveVoiceInstructions c w =
     (if isInterviewEnded c then w else speakQuestion c instruction (Some AfterInstructions) w)"

definition startInterview :: "Render \<Rightarrow> World \<Rightarrow> World" where
  "startInterview c w = giveVoiceInstructions c (w\<lparr>st := (st w)\<lparr>interviewPhase := VoiceIntro\<rparr>\<rparr>)"

definition stopTracks :: "nat list \<Rightarrow> Track list \<Rightarrow> Track list" where
  \<comment> \<open>\<^verbatim>\<open>getTracks().forEach((track) => track.stop())\<close> on the stream holding the tracks \<open>ids\<close>\<close>
  "stopTracks ids ts = map (\<lambda>t. if trackId t \<in> set ids then t\<lparr>live := False\<rparr> else t) ts"

definition handleEndInterview :: "World \<Rightarrow> World" where
  "handleEndInterview w =
     (let w1 = w\<lparr>st := (st w)\<lparr>isInterviewEnded := True\<rparr>\<rparr>;
          w2 = speechSynthesisCancel w1;
          w3 = (case speechSynthRef w2 of
                  None \<Rightarrow> w2
                | Some i \<Rightarrow>
                    w2\<lparr>synth := map (\<lambda>u. if uid u = i then u\<lparr>handlers := None\<rparr> else u)
                                    (synth w2)\<rparr>);
          w4 = (case streamRef w3 of
                  None \<Rightarrow> w3
                | Some ids \<Rightarrow> w3\<lparr>tracks := stopTracks ids (tracks w3), streamRef := None\<rparr>);
          w5 = clearAllTimeouts w4;
          w6 = (case postureCheckRef w5 of
                  None \<Rightarrow> w5
                | Some i \<Rightarrow> w5\<lparr>intervals := filter (\<lambda>j. j \<noteq> i) (intervals w5),
                               postureCheckRef := None\<rparr>);
          w7 = w6\<lparr>st := (st w6)\<lparr>aiSpeaking := False, isListening := False,
                                  currentQuestion := None, isLoading := False,
                                  isCameraOn := False, isMicOn := False,
                                  isVideoLoaded := False, cameraError := None,
                                  microphoneError := None,
                                  cameraPermissionStatus := Unknown\<rparr>\<rparr>
      in w7\<lparr>trace := trace w7 @ [OnEnd]\<rparr>)"

definition firstTrack :: "TrackKind \<Rightarrow> World \<Rightarrow> Track option" where
  \<comment> \<open>\<^verbatim>\<open>streamRef.current.getVideoTracks()[0]\<close>, \<^verbatim>\<open>getAudioTracks()[0]\<close>\<close>
  "firstTrack k w =
     (case streamRef w of
        None \<Rightarrow> None
      | Some ids \<Rightarrow>
          (case filter (\<lambda>t. trackId t \<in> set ids \<and> kind t = k) (tracks w) of
             [] \<Rightarrow> None
           | t # ts \<Rightarrow> Some t))"

definition setTrackEnabled :: "nat \<Rightarrow> bool \<Rightarrow> World \<Rightarrow> World" where
  "setTrackEnabled i b w =
     w\<lparr>tracks := map (\<lambda>t. if trackId t = i then t\<lparr>enabled := b\<rparr> else t) (tracks w)\<rparr>"

definition toggleCamera :: "Render \<Rightarrow> World \<Rightarrow> World" where
  "toggleCamera c w =
     (case firstTrack VideoTrack w of
        None \<Rightarrow> w
      | Some t \<Rightarrow>
          (let w1 = setTrackEnabled (trackId t) (\<not> isCameraOn c) w
           in w1\<lparr>st := (st w1)\<lparr>isCameraOn := \<not> isCameraOn c\<rparr>\<rparr>))"

definition toggleMic :: "Render \<Rightarrow> World \<Rightarrow> World" where
  "toggleMic c w =
     (case firstTrack AudioTrack w of
        None \<Rightarrow> w
      | Some t \<Rightarrow>
          (let w1 = setTrackEnabled (trackId t) (\<not> isMicOn c) w;
               w2 = w1\<lparr>st := (st w1)\<lparr>isMicOn := \<not> isMicOn c\<rparr>\<rparr>
           in if \<not> isMicOn c \<and> isListening c
              then w2\<lparr>st := (st w2)\<lparr>isListening := False\<rparr>\<rparr>
              else w2))"

definition skipSentinel :: string where
  "skipSentinel = ''User skipped this question''"

definition handleManualNext :: "Render \<Rightarrow> World \<Rightarrow> World" where
  "handleManualNext c w =
     (if currentQuestion c \<noteq> None \<and> \<not> isInterviewEnded c
      then
        let w1 = speechSynthesisCancel w;
            w2 = w1\<lparr>st := (st w1)\<lparr>aiSpeaking := False\<rparr>\<rparr>
        in handleResponse c skipSentinel w2
      else w)"

definition onRestart :: "World \<Rightarrow> World" where
  "onRestart w =
     clearAllTimeouts
       (w\<lparr>st := (st w)\<lparr>isInterviewEnded := False, interviewPhase := Instructions,
                         responses := [], questions := [],
                         questionCounts := \<lparr>introduction = 0, technical = 0, behavioral = 0\<rparr>,
                         currentQuestionIndex := 0\<rparr>\<rparr>)"

definition requestCameraPermission :: "Render \<Rightarrow> World \<Rightarrow> World" where
  "requestCameraPermission c w =
     (let w1 = w\<lparr>st := (st w)\<lparr>cameraError := None, microphoneError := None,
                                isVideoLoaded := False\<rparr>\<rparr>;
          w2 = (case streamRef w1 of
                  None \<Rightarrow> w1
                | Some ids \<Rightarrow> w1\<lparr>tracks := stopTracks ids (tracks w1), streamRef := None\<rparr>)
      in setTimeoutRaw (RetryInitializeCamera c) 100 w2)"

text \<open>
  \<^verbatim>\<open>initializeCamera\<close> is followed along the path on which the stream is granted and the
  video element reports its metadata or the five-second fallback fires.  A rejected
  \<^verbatim>\<open>getUserMedia\<close>, an error event of the video element and a rejected \<^verbatim>\<open>play()\<close> are not
  modelled; no property below depends on them.  \<^verbatim>\<open>videoRef.current\<close> is set exactly while
  the interview screen is rendered.  The callback of the posture interval changes only the
  posture display and is left out; the interval itself is kept.
\<close>

definition mainScreen :: "Render \<Rightarrow> bool" where
  \<comment> \<open>the interview screen with its buttons and its video element is rendered in every phase
      but these two\<close>
  "mainScreen r \<longleftrightarrow> interviewPhase r \<noteq> Instructions \<and> interviewPhase r \<noteq> Feedback"

definition initializeCamera :: "Render \<Rightarrow> World \<Rightarrow> World" where
  \<comment> \<open>up to \<^verbatim>\<open>await navigator.mediaDevices.getUserMedia(...)\<close>\<close>
  "initializeCamera c w =
     w\<lparr>st := (st w)\<lparr>cameraError := None, microphoneError := None, isVideoLoaded := False\<rparr>,
       mediaRequests := mediaRequests w @ [c]\<rparr>"

definition startPostureMonitoring :: "World \<Rightarrow> World" where
  \<comment> \<open>\<^verbatim>\<open>postureCheckRef.current = setInterval(..., 10000)\<close>\<close>
  "startPostureMonitoring w =
     w\<lparr>nextId := nextId w + 1, intervals := intervals w @ [nextId w],
       postureCheckRef := Some (nextId w)\<rparr>"

definition afterVideoReady :: "Render \<Rightarrow> World \<Rightarrow> World" where
  \<comment> \<open>\<^verbatim>\<open>if (!isInterviewEnded) { startPostureMonitoring() }\<close>\<close>
  "afterVideoReady c w = (if \<not> isInterviewEnded c then startPostureMonitoring w else w)"

definition cameraGranted :: "Render \<Rightarrow> World \<Rightarrow> World" where
  \<comment> \<open>from the granted stream to the \<^verbatim>\<open>await\<close> of the video element; the stream has one video
      and one audio track\<close>
  "cameraGranted c w =
     (let v = nextId w; a = nextId w + 1;
          w1 = w\<lparr>nextId := nextId w + 2,
                 tracks := tracks w @
                   [\<lparr>trackId = v, kind = VideoTrack, enabled = True, live = True\<rparr>,
                    \<lparr>trackId = a, kind = AudioTrack, enabled = True, live = True\<rparr>],
                 streamRef := Some [v, a],
                 st := (st w)\<lparr>cameraPermissionStatus := Granted\<rparr>\<rparr>
      in if mainScreen (st w) \<and> \<not> isInterviewEnded c
         then
           let p = nextId w1
           in setTimeoutRaw (VideoLoadTimeout c p) 5000
                (w1\<lparr>nextId := p + 1, videoLoads := videoLoads w1 @ [(p, c)]\<rparr>)
         else afterVideoReady c w1)"

definition videoReady :: "nat \<Rightarrow> Render \<Rightarrow> World \<Rightarrow> World" where
  \<comment> \<open>\<^verbatim>\<open>onLoadedMetadata\<close> and the callback of the five-second timer:
      \<^verbatim>\<open>if (isResolved || isInterviewEnded) return\<close>, then \<^verbatim>\<open>setIsVideoLoaded(true); resolve()\<close>
      and what follows the \<^verbatim>\<open>await\<close>\<close>
  "videoReady p c w =
     (if (p, c) \<notin> set (videoLoads w) \<or> isInterviewEnded c then w
      else afterVideoReady c
             (w\<lparr>videoLoads := filter (\<lambda>l. fst l \<noteq> p) (videoLoads w),
                st := (st w)\<lparr>isVideoLoaded := True\<rparr>\<rparr>))"

section \<open>Callbacks: what runs when the browser calls back\<close>

fun runOnComplete :: "Render \<Rightarrow> OnComplete \<Rightarrow> World \<Rightarrow> World" where
  "runOnComplete c AfterInstructions w =
     (if \<not> isInterviewEnded c
      then generateQuestionsForPhase c PIntroduction
             (w\<lparr>st := (st w)\<lparr>interviewPhase := Introduction\<rparr>\<rparr>)
      else w)"
| "runOnComplete c (AfterTransition q) w =
     (if \<not> isInterviewEnded c then createTimeout c (SpeakText (qtext q)) 1000 w else w)"
| "runOnComplete c AfterThankYou w =
     (if \<not> isInterviewEnded c then createTimeout c ShowFeedback 2000 w else w)"

definition utteranceOnEnd :: "Render \<Rightarrow> OnComplete option \<Rightarrow> World \<Rightarrow> World" where
  "utteranceOnEnd c onComplete w =
     (let w1 = w\<lparr>st := (st w)\<lparr>aiSpeaking := False\<rparr>\<rparr>
      in if isInterviewEnded c then w1
         else case onComplete of
                Some k \<Rightarrow> runOnComplete c k w1
              | None \<Rightarrow>
                  if isMicOn c \<and> interviewPhase c \<noteq> VoiceIntro
                  then createTimeout c StartListening 1000 w1
                  else w1)"

definition utteranceOnError :: "string \<Rightarrow> Render \<Rightarrow> OnComplete option \<Rightarrow> World \<Rightarrow> World" where
  \<comment> \<open>the error code only selects the console message\<close>
  "utteranceOnError err c onComplete w =
     (let w1 = w\<lparr>st := (st w)\<lparr>aiSpeaking := False\<rparr>\<rparr>
      in if isInterviewEnded c then w1
         else case onComplete of
                Some k \<Rightarrow> runOnComplete c k w1
              | None \<Rightarrow>
                  if isMicOn c \<and> interviewPhase c \<noteq> VoiceIntro
                  then createTimeout c StartListening 1000 w1
                  else w1)"

fun runTimerBody :: "Render \<Rightarrow> TimerBody \<Rightarrow> World \<Rightarrow> World" where
  "runTimerBody c (SpeakText t) w = speakQuestion c t None w"
| "runTimerBody c StartListening w =
     (if \<not> isInterviewEnded c then w\<lparr>st := (st w)\<lparr>isListening := True\<rparr>\<rparr> else w)"
| "runTimerBody c (NextStep counts allResponses) w = determineNextStep c counts allResponses w"
| "runTimerBody c ShowFeedback w = w\<lparr>st := (st w)\<lparr>interviewPhase := Feedback\<rparr>\<rparr>"

fun runTimerFn :: "nat \<Rightarrow> TimerFn \<Rightarrow> World \<Rightarrow> World" where
  "runTimerFn i (Tracked c b) w =
     (let w1 = w\<lparr>timeoutsRef := filter (\<lambda>j. j \<noteq> i) (timeoutsRef w)\<rparr>
      in if \<not> isInterviewEnded c then runTimerBody c b w1 else w1)"
| "runTimerFn i (RetryInitializeCamera c) w = initializeCamera c w"
| "runTimerFn i (VideoLoadTimeout c p) w = videoReady p c w"

fun runFetchCont :: "FetchCont \<Rightarrow> FetchResult \<Rightarrow> World \<Rightarrow> World" where
  "runFetchCont (ForPhase phase c) r w = generateQuestionsForPhaseDone c phase r w"
| "runFetchCont (ForTechnical c) r w = transitionDone c PTechnical technicalTransitionMessage r w"
| "runFetchCont (ForBehavioral c) r w = transitionDone c PBehavioral behavioralTransitionMessage r w"
| "runFetchCont (ForNextQuestion phase c) r w = generateNextQuestionInPhaseDone c phase r w"

section \<open>Events\<close>

text \<open>
  One event is one run of JavaScript to completion: a click on a button that is rendered and
  enabled, a timer whose delay has passed, an event of the current or of a cancelled
  utterance, the result of a fetch in flight, a granted camera request, the metadata event
  of the video element, a transcript handed over by the speech recognition component, or
  time passing.  Button clicks run the handler of the latest render.  The recognition
  component holds the \<^verbatim>\<open>handleResponse\<close> of the render in which its first effect last ran.
  That effect depends on \<^verbatim>\<open>isListening\<close> and on the component's own \<^verbatim>\<open>error\<close> state, so
  \<open>listenRender\<close> is refreshed whenever an event changes the flag, and by the event
  \<open>RecognitionRenewed\<close>, a change of that error state.  Time is counted in milliseconds; a
  timer fires no earlier than its delay, and time does not pass beyond a timer that is due.
\<close>

datatype Event =
    ClickStart
  | ClickSkip
  | ClickEnd
  | ClickToggleMic
  | ClickToggleCamera
  | ClickRetryCamera
  | ClickRestart
  | Elapse nat
  | TimerFires nat
  | UtteranceEnds nat
  | UtteranceErrors nat string
  | FetchCompletes nat FetchResult
  | MediaGranted
  | VideoMetadataLoaded nat
  | VoiceResult string
  | RecognitionStopped
  | RecognitionRenewed

definition skipEnabled :: "Render \<Rightarrow> bool" where
  "skipEnabled r \<longleftrightarrow>
     mainScreen r \<and>
     \<not> (currentQuestion r = None \<or> isLoading r \<or> interviewPhase r = Ending \<or>
        interviewPhase r = VoiceIntro \<or> isInterviewEnded r)"

definition retryShown :: "Render \<Rightarrow> bool" where
  \<comment> \<open>``Try Again'' under a camera error, ``Retry Camera'' while the video is not loaded\<close>
  "retryShown r \<longleftrightarrow> mainScreen r \<and> (cameraError r \<noteq> None \<or> \<not> isVideoLoaded r)"

definition dispatch :: "Event \<Rightarrow> World \<Rightarrow> World option" where
  "dispatch e w =
     (case e of
        ClickStart \<Rightarrow>
          if interviewPhase (st w) = Instructions then Some (startInterview (st w) w) else None
      | ClickSkip \<Rightarrow> if skipEnabled (st w) then Some (handleManualNext (st w) w) else None
      | ClickEnd \<Rightarrow> if mainScreen (st w) then Some (handleEndInterview w) else None
      | ClickToggleMic \<Rightarrow> if mainScreen (st w) then Some (toggleMic (st w) w) else None
      | ClickToggleCamera \<Rightarrow> if mainScreen (st w) then Some (toggleCamera (st w) w) else None
      | ClickRetryCamera \<Rightarrow>
          if retryShown (st w) then Some (requestCameraPermission (st w) w) else None
      | ClickRestart \<Rightarrow> if interviewPhase (st w) = Feedback then Some (onRestart w) else None
      | Elapse n \<Rightarrow>
          if list_all (\<lambda>t. clock w + n \<le> due t) (timers w)
          then Some (w\<lparr>clock := clock w + n\<rparr>) else None
      | TimerFires i \<Rightarrow>
          (case filter (\<lambda>t. tid t = i) (timers w) of
             [] \<Rightarrow> None
           | t # ts \<Rightarrow>
               if due t \<le> clock w
               then Some (runTimerFn i (callback t)
                            (w\<lparr>timers := filter (\<lambda>t. tid t \<noteq> i) (timers w)\<rparr>))
               else None)
      | UtteranceEnds i \<Rightarrow>
          (case filter (\<lambda>u. uid u = i) (synth w) of
             [] \<Rightarrow> None
           | u # us \<Rightarrow>
               if cancelled u then None
               else
                 let w1 = w\<lparr>synth := filter (\<lambda>u. uid u \<noteq> i) (synth w)\<rparr>
                 in Some (case handlers u of
                            None \<Rightarrow> w1
                          | Some (c, k) \<Rightarrow> utteranceOnEnd c k w1))
      | UtteranceErrors i err \<Rightarrow>
          (case filter (\<lambda>u. uid u = i) (synth w) of
             [] \<Rightarrow> None
           | u # us \<Rightarrow>
               let w1 = w\<lparr>synth := filter (\<lambda>u. uid u \<noteq> i) (synth w)\<rparr>
               in Some (case handlers u of
                          None \<Rightarrow> w1
                        | Some (c, k) \<Rightarrow> utteranceOnError err c k w1))
      | FetchCompletes i r \<Rightarrow>
          (case filter (\<lambda>f. fst f = i) (fetches w) of
             [] \<Rightarrow> None
           | f # fs \<Rightarrow>
               Some (runFetchCont (snd f) r
                       (w\<lparr>fetches := filter (\<lambda>f. fst f \<noteq> i) (fetches w)\<rparr>)))
      | MediaGranted \<Rightarrow>
          (case mediaRequests w of
             [] \<Rightarrow> None
           | c # cs \<Rightarrow> Some (cameraGranted c (w\<lparr>mediaRequests := cs\<rparr>)))
      | VideoMetadataLoaded p \<Rightarrow>
          (case filter (\<lambda>l. fst l = p) (videoLoads w) of
             [] \<Rightarrow> None
           | l # ls \<Rightarrow> Some (videoReady p (snd l) w))
      | VoiceResult t \<Rightarrow>
          if isListening (st w) then Some (handleResponse (listenRender w) t w) else None
      | RecognitionStopped \<Rightarrow>
          if isListening (st w) then Some (w\<lparr>st := (st w)\<lparr>isListening := False\<rparr>\<rparr>) else None
      | RecognitionRenewed \<Rightarrow>
          if mainScreen (st w) then Some (w\<lparr>listenRender := st w\<rparr>) else None)"

definition step :: "Event \<Rightarrow> World \<Rightarrow> World option" where
  "step e w =
     (case dispatch e w of
        None \<Rightarrow> None
      | Some w1 \<Rightarrow>
          Some (if isListening (st w1) = isListening (st w) then w1
                else w1\<lparr>listenRender := st w1\<rparr>))"

fun run :: "Event list \<Rightarrow> World \<Rightarrow> World option" where
  "run [] w = Some w"
| "run (e # es) w = (case step e w of None \<Rightarrow> None | Some w1 \<Rightarrow> run es w1)"

definition initialRender :: Render where
  "initialRender =
     \<lparr>isCameraOn = True, isMicOn = True, currentQuestion = None, questions = [],
      responses = [], isListening = False, interviewPhase = Instructions, isLoading = False,
      aiSpeaking = False, microphoneError = None, cameraError = None,
      cameraPermissionStatus = Unknown, isVideoLoaded = False, isInterviewEnded = False,
      questionCounts = \<lparr>introduction = 0, technical = 0, behavioral = 0\<rparr>,
      currentQuestionIndex = 0\<rparr>"

definition mounted :: World where
  \<comment> \<open>the component after its mount effect was granted a camera and a microphone track and
      started the posture interval; the instructions screen has no video element, so
      \<^verbatim>\<open>isVideoLoaded\<close> is still false\<close>
  "mounted =
     \<lparr>st = initialRender\<lparr>cameraPermissionStatus := Granted\<rparr>, clock = 0, nextId = 3,
      timers = [], timeoutsRef = [], intervals = [2], postureCheckRef = Some 2,
      tracks = [\<lparr>trackId = 0, kind = VideoTrack, enabled = True, live = True\<rparr>,
                \<lparr>trackId = 1, kind = AudioTrack, enabled = True, live = True\<rparr>],
      streamRef = Some [0, 1], synth = [], speechSynthRef = None, fetches = [],
      mediaRequests = [], videoLoads = [], listenRender = initialRender, trace = []\<rparr>"

section \<open>The speech recognition component\<close>

text \<open>
  \<^verbatim>\<open>SpeechRecognition\<close> (the second component of \<^verbatim>\<open>src/unnamed/part_001\<close>) keeps the
  transcript and its flags in refs, so its handlers read the current values.  A result event
  is the list of the segments from \<^verbatim>\<open>event.resultIndex\<close> on, each with its transcript and
  its \<^verbatim>\<open>isFinal\<close> flag.  The adapter's environment is its own timer table, the calls of
  \<^verbatim>\<open>recognition.start()\<close>, \<^verbatim>\<open>recognition.stop()\<close> and of the \<^verbatim>\<open>onStop\<close> prop, and
  \<open>results\<close>, the arguments of the calls of the \<^verbatim>\<open>onResult\<close> prop in order.
  \<^verbatim>\<open>timeoutRef\<close> is never assigned in the source and is left out, as is the confidence, a
  float that only the display reads.
\<close>

definition isWhiteSpace :: "char \<Rightarrow> bool" where
  \<comment> \<open>the white space and line terminator code points of ECMAScript below 256\<close>
  "isWhiteSpace ch \<longleftrightarrow> ch \<in> set [CHR 0x09, CHR 0x0A, CHR 0x0B, CHR 0x0C, CHR 0x0D, CHR 0x20, CHR 0xA0]"

definition trim :: "string \<Rightarrow> string" where
  "trim s = rev (dropWhile isWhiteSpace (rev (dropWhile isWhiteSpace s)))"

record Segment =
  segTranscript :: string
  isFinal :: bool

datatype TimerKind = Silence | Restart

record AdapterTimer =
  atid :: nat
  adue :: nat
  akind :: TimerKind

record Adapter =
  transcript :: string
  interimTranscript :: string
  error :: "string option"
  isRecognitionActive :: bool
  finalTranscriptRef :: string
  isProcessingRef :: bool
  silenceTimeoutRef :: "nat option"
  restartTimeoutRef :: "nat option"
  now :: nat
  fresh :: nat
  pending :: "AdapterTimer list"
  startRequests :: nat
  stopRequests :: nat
  stopNotices :: nat
  results :: "string list"

definition clearTimeoutOpt :: "nat option \<Rightarrow> Adapter \<Rightarrow> Adapter" where
  \<comment> \<open>\<^verbatim>\<open>if (ref.current) clearTimeout(ref.current)\<close>\<close>
  "clearTimeoutOpt r a =
     (case r of None \<Rightarrow> a | Some i \<Rightarrow> a\<lparr>pending := filter (\<lambda>t. atid t \<noteq> i) (pending a)\<rparr>)"

definition adapterClearAllTimeouts :: "Adapter \<Rightarrow> Adapter" where
  "adapterClearAllTimeouts a =
     (let a1 = (clearTimeoutOpt (silenceTimeoutRef a) a)\<lparr>silenceTimeoutRef := None\<rparr>
      in (clearTimeoutOpt (restartTimeoutRef a1) a1)\<lparr>restartTimeoutRef := None\<rparr>)"

definition processTranscript :: "string \<Rightarrow> Adapter \<Rightarrow> Adapter" where
  "processTranscript txt a =
     (if isProcessingRef a \<or> trim txt = [] then a
      else
        let a1 = a\<lparr>isProcessingRef := True\<rparr>;
            a2 = a1\<lparr>stopRequests := stopRequests a1 + 1\<rparr>;
            a3 = adapterClearAllTimeouts a2;
            a4 = a3\<lparr>results := results a3 @ [trim txt]\<rparr>
        in a4\<lparr>transcript := [], interimTranscript := [], finalTranscriptRef := [],
              isRecognitionActive := False\<rparr>)"

definition onstart :: "Adapter \<Rightarrow> Adapter" where
  "onstart a =
     a\<lparr>isRecognitionActive := True, error := None, transcript := [], interimTranscript := [],
       finalTranscriptRef := [], isProcessingRef := False\<rparr>"

fun collectSegments :: "Segment list \<Rightarrow> string \<times> string \<Rightarrow> string \<times> string" where
  \<comment> \<open>the loop over \<^verbatim>\<open>event.results\<close>: (\<^verbatim>\<open>finalText\<close>, \<^verbatim>\<open>interimText\<close>)\<close>
  "collectSegments [] acc = acc"
| "collectSegments (s # ss) (finalText, interimText) =
     (if isFinal s
      then collectSegments ss (finalText @ trim (segTranscript s) @ '' '', interimText)
      else collectSegments ss (finalText, interimText @ trim (segTranscript s) @ '' ''))"

definition onresult :: "Segment list \<Rightarrow> Adapter \<Rightarrow> Adapter" where
  "onresult segs a =
     (if isProcessingRef a then a
      else
        let (finalText, interimText) = collectSegments segs ([], []);
            a1 =
              (if trim finalText \<noteq> []
               then
                 let a2 = a\<lparr>finalTranscriptRef := finalTranscriptRef a @ finalText\<rparr>;
                     a3 = a2\<lparr>transcript := trim (finalTranscriptRef a2)\<rparr>;
                     a4 = clearTimeoutOpt (silenceTimeoutRef a3) a3
                 in a4\<lparr>silenceTimeoutRef := Some (fresh a4), fresh := fresh a4 + 1,
                       pending := pending a4 @
                         [\<lparr>atid = fresh a4, adue = now a4 + 1500, akind = Silence\<rparr>]\<rparr>
               else a)
        in if trim interimText \<noteq> [] then a1\<lparr>interimTranscript := trim interimText\<rparr> else a1)"

definition silenceElapsed :: "Adapter \<Rightarrow> Adapter" where
  \<comment> \<open>the callback of the silence timer\<close>
  "silenceElapsed a =
     (if trim (finalTranscriptRef a) \<noteq> [] \<and> \<not> isProcessingRef a
      then processTranscript (trim (finalTranscriptRef a)) a
      else a)"

definition scheduleRestart :: "nat \<Rightarrow> Adapter \<Rightarrow> Adapter" where
  "scheduleRestart delay a =
     (let a1 = clearTimeoutOpt (restartTimeoutRef a) a
      in a1\<lparr>restartTimeoutRef := Some (fresh a1), fresh := fresh a1 + 1,
            pending := pending a1 @ [\<lparr>atid = fresh a1, adue = now a1 + delay, akind = Restart\<rparr>]\<rparr>)"

definition restartElapsed :: "bool \<Rightarrow> Adapter \<Rightarrow> Adapter" where
  \<comment> \<open>the callback of the restart timer; \<open>listening\<close> is the \<^verbatim>\<open>isListening\<close> prop it closes over\<close>
  "restartElapsed listening a =
     (if listening \<and> \<not> isProcessingRef a then a\<lparr>startRequests := startRequests a + 1\<rparr> else a)"

definition onend :: "bool \<Rightarrow> Adapter \<Rightarrow> Adapter" where
  "onend listening a =
     (let a1 = a\<lparr>isRecognitionActive := False\<rparr>;
          a2 = clearTimeoutOpt (silenceTimeoutRef a1) a1
      in if listening \<and> error a = None \<and> \<not> isProcessingRef a2 then scheduleRestart 500 a2 else a2)"

definition onerror :: "bool \<Rightarrow> string \<Rightarrow> Adapter \<Rightarrow> Adapter" where
  "onerror listening code a =
     (if code = ''no-speech''
      then
        let a1 = a\<lparr>error := Some ''No speech detected. Please speak clearly into your microphone.''\<rparr>
        in if listening then scheduleRestart 1000 a1 else a1
      else if code = ''audio-capture''
      then a\<lparr>error := Some ''Microphone not accessible. Please check your microphone permissions.'',
             isRecognitionActive := False, stopNotices := stopNotices a + 1\<rparr>
      else if code = ''not-allowed''
      then a\<lparr>error := Some ''Microphone permission denied. Please allow microphone access and refresh the page.'',
             isRecognitionActive := False, stopNotices := stopNotices a + 1\<rparr>
      else if code = ''network''
      then
        let a1 = a\<lparr>error := Some ''Network error. Please check your internet connection.''\<rparr>
        in if listening then scheduleRestart 2000 a1 else a1
      else if code = ''aborted''
      then a\<lparr>isRecognitionActive := False\<rparr>
      else if code = ''service-not-allowed''
      then a\<lparr>error := Some ''Speech recognition service not allowed. Please check your browser settings.'',
             isRecognitionActive := False, stopNotices := stopNotices a + 1\<rparr>
      else
        let a1 = a\<lparr>error := Some (''Speech recognition error: '' @ code)\<rparr>
        in if listening then scheduleRestart 1500 a1 else a1)"

definition cleanup :: "Adapter \<Rightarrow> Adapter" where
  \<comment> \<open>the handlers it detaches are attached again, to a fresh recognition object, by the
      effect that follows it\<close>
  "cleanup a =
     (let a1 = a\<lparr>stopRequests := stopRequests a + 1\<rparr>;
          a2 = adapterClearAllTimeouts a1
      in a2\<lparr>isRecognitionActive := False, isProcessingRef := False\<rparr>)"

datatype AdapterEvent =
    Started
  | Result "Segment list"
  | Ended
  | Failed string
  | CleanedUp
  | Passes nat
  | TimerElapsed nat

fun beginsTurn :: "AdapterEvent \<Rightarrow> bool" where
  \<comment> \<open>the events that reset \<^verbatim>\<open>isProcessingRef\<close>\<close>
  "beginsTurn Started = True"
| "beginsTurn CleanedUp = True"
| "beginsTurn e = False"

definition adapterStep :: "bool \<Rightarrow> AdapterEvent \<Rightarrow> Adapter \<Rightarrow> Adapter option" where
  "adapterStep listening e a =
     (case e of
        Started \<Rightarrow> Some (onstart a)
      | Result segs \<Rightarrow> Some (onresult segs a)
      | Ended \<Rightarrow> Some (onend listening a)
      | Failed code \<Rightarrow> Some (onerror listening code a)
      | CleanedUp \<Rightarrow> Some (cleanup a)
      | Passes n \<Rightarrow>
          if list_all (\<lambda>t. now a + n \<le> adue t) (pending a)
          then Some (a\<lparr>now := now a + n\<rparr>) else None
      | TimerElapsed i \<Rightarrow>
          (case filter (\<lambda>t. atid t = i) (pending a) of
             [] \<Rightarrow> None
           | t # ts \<Rightarrow>
               if adue t \<le> now a
               then
                 let a1 = a\<lparr>pending := filter (\<lambda>t. atid t \<noteq> i) (pending a)\<rparr>
                 in Some (case akind t of
                            Silence \<Rightarrow> silenceElapsed a1
                          | Restart \<Rightarrow> restartElapsed listening a1)
               else None))"

fun adapterRun :: "bool \<Rightarrow> AdapterEvent list \<Rightarrow> Adapter \<Rightarrow> Adapter option" where
  "adapterRun listening [] a = Some a"
| "adapterRun listening (e # es) a =
     (case adapterStep listening e a of None \<Rightarrow> None | Some a1 \<Rightarrow> adapterRun listening es a1)"

definition idleAdapter :: Adapter where
  "idleAdapter =
     \<lparr>transcript = [], interimTranscript = [], error = None, isRecognitionActive = False,
      finalTranscriptRef = [], isProcessingRef = False, silenceTimeoutRef = None,
      restartTimeoutRef = None, now = 0, fresh = 0, pending = [], startRequests = 0,
      stopRequests = 0, stopNotices = 0, results = []\<rparr>"

section \<open>Vocabulary of the properties\<close>

definition countsSum :: "QuestionCounts \<Rightarrow> nat" where
  "countsSum k = introduction k + technical k + behavioral k"

definition balanced :: "Render \<Rightarrow> bool" where
  "balanced r \<longleftrightarrow> length (responses r) = countsSum (questionCounts r)"

fun closureOk :: "TimerFn \<Rightarrow> bool" where
  "closureOk (Tracked c b) = balanced c"
| "closureOk (RetryInitializeCamera c) = True"
| "closureOk (VideoLoadTimeout c p) = True"

fun contRender :: "FetchCont \<Rightarrow> Render" where
  "contRender (ForPhase p c) = c"
| "contRender (ForTechnical c) = c"
| "contRender (ForBehavioral c) = c"
| "contRender (ForNextQuestion p c) = c"

definition handlersOk :: "Utterance \<Rightarrow> bool" where
  "handlersOk u = (case handlers u of None \<Rightarrow> True | Some (c, k) \<Rightarrow> balanced c)"

definition worldOk :: "World \<Rightarrow> bool" where
  \<comment> \<open>the current state and every render a pending callback closes over are balanced\<close>
  "worldOk w \<longleftrightarrow>
     balanced (st w) \<and> balanced (listenRender w) \<and>
     list_all (\<lambda>t. closureOk (callback t)) (timers w) \<and>
     list_all handlersOk (synth w) \<and>
     list_all (\<lambda>f. balanced (contRender (snd f))) (fetches w)"

definition answering :: "Render \<Rightarrow> Question option" where
  \<comment> \<open>the question for which \<^verbatim>\<open>handleResponse\<close>, called from this render, logs a Response\<close>
  "answering c = (if isInterviewEnded c then None else currentQuestion c)"

fun answered :: "Event \<Rightarrow> World \<Rightarrow> Question option" where
  \<comment> \<open>the question an event answers: ``Skip Question'' calls \<^verbatim>\<open>handleResponse\<close> of the current
      render, a voice result the one the speech recognition component holds\<close>
  "answered ClickSkip w = answering (st w)"
| "answered (VoiceResult t) w = answering (listenRender w)"
| "answered e w = None"

definition notFollowUp :: "Question option \<Rightarrow> bool" where
  "notFollowUp x = (case x of None \<Rightarrow> True | Some q \<Rightarrow> category q \<noteq> CatFollowUp)"

fun noFollowUpAnswered :: "Event list \<Rightarrow> World \<Rightarrow> bool" where
  \<comment> \<open>along the run of the events from \<open>w\<close>, no event answers a question of category
      \<^verbatim>\<open>follow-up\<close>\<close>
  "noFollowUpAnswered [] w = True"
| "noFollowUpAnswered (e # es) w =
     (notFollowUp (answered e w) \<and>
      (case step e w of None \<Rightarrow> True | Some w1 \<Rightarrow> noFollowUpAnswered es w1))"

definition openingEvents :: "FetchResult \<Rightarrow> Event list" where
  "openingEvents r = [ClickStart, UtteranceEnds 3, FetchCompletes 4 r]"

definition answerCycle :: "nat \<Rightarrow> string \<Rightarrow> Event list" where
  "answerCycle s a =
     [Elapse 1000, TimerFires s, UtteranceEnds (s + 1), Elapse 1000, TimerFires (s + 2),
      VoiceResult a, Elapse 2000, TimerFires (s + 3)]"

definition answerIntroduction :: "FetchResult \<Rightarrow> string \<Rightarrow> string \<Rightarrow> string \<Rightarrow> Event list" where
  "answerIntroduction r a1 a2 a3 =
     openingEvents r @ answerCycle 5 a1 @ answerCycle 9 a2 @ answerCycle 13 a3"

definition answersView :: "World \<Rightarrow> InterviewPhase \<times> (nat \<times> string) list" where
  "answersView w = (interviewPhase (st w), map (\<lambda>r. (questionId r, answer r)) (responses (st w)))"

definition fallbackText :: "nat \<Rightarrow> string" where
  "fallbackText i = qtext (concat (map fallbackQuestions [PIntroduction, PTechnical, PBehavioral]) ! (i - 1))"

definition skipCycle :: "nat \<Rightarrow> Event list" where
  "skipCycle s =
     [Elapse 1000, TimerFires s, UtteranceEnds (s + 1), Elapse 1000, TimerFires (s + 2),
      ClickSkip, Elapse 2000, TimerFires (s + 3)]"

definition skipEverything :: "FetchResult \<Rightarrow> FetchResult \<Rightarrow> FetchResult \<Rightarrow> Event list" where
  "skipEverything r1 r2 r3 =
     openingEvents r1 @ skipCycle 5 @ skipCycle 9 @ skipCycle 13 @
     [FetchCompletes 17 r2, UtteranceEnds 18] @
     skipCycle 19 @ skipCycle 23 @ skipCycle 27 @ skipCycle 31 @ skipCycle 35 @
     [FetchCompletes 39 r3, UtteranceEnds 40] @
     skipCycle 41 @ skipCycle 45 @ skipCycle 49 @ skipCycle 53 @
     [UtteranceEnds 57, Elapse 2000, TimerFires 58]"

definition skippedView :: "World \<Rightarrow> InterviewPhase \<times> QuestionCounts \<times> (nat \<times> string) list" where
  "skippedView w =
     (interviewPhase (st w), questionCounts (st w),
      map (\<lambda>r. (questionId r, answer r)) (responses (st w)))"

definition firstQuestionHeard :: "Event list" where
  "firstQuestionHeard = openingEvents Rejected @ [Elapse 1000, TimerFires 5, UtteranceEnds 6]"

definition overBudgetTrace :: "Event list" where
  "overBudgetTrace = firstQuestionHeard @ [ClickSkip, ClickSkip, ClickSkip, ClickSkip]"

definition bothFlagsTrace :: "Event list" where
  "bothFlagsTrace = firstQuestionHeard @
     [Elapse 500, ClickSkip, Elapse 500, TimerFires 7, Elapse 1500, TimerFires 8,
      Elapse 1000, TimerFires 9]"

definition fourSkipsSettled :: "Event list" where
  \<comment> \<open>the four clicks of \<open>overBudgetTrace\<close>, then the listen timer and the four settle timers\<close>
  "fourSkipsSettled = overBudgetTrace @
     [Elapse 1000, TimerFires 7, Elapse 1000, TimerFires 8, TimerFires 9, TimerFires 10,
      TimerFires 11]"

definition skipThenSpeak :: "string \<Rightarrow> Event list" where
  \<comment> \<open>question 1 is skipped half a second after it was spoken; question 2 is spoken to its
      end and answered by voice\<close>
  "skipThenSpeak a = bothFlagsTrace @ [UtteranceEnds 10, VoiceResult a]"

definition fallbackView :: "World \<Rightarrow> InterviewPhase \<times> nat list \<times> nat list" where
  \<comment> \<open>the phase, the ids of the installed questions, the question ids of the responses\<close>
  "fallbackView w =
     (interviewPhase (st w), map qid (questions (st w)), map questionId (responses (st w)))"

definition retryThenEndTrace :: "Event list" where
  "retryThenEndTrace = [ClickStart, Elapse 50, ClickRetryCamera, Elapse 50, ClickEnd]"

definition retryLaterEndTrace :: "Event list" where
  "retryLaterEndTrace =
     [ClickStart, ClickRetryCamera, Elapse 100, TimerFires 4, MediaGranted,
      VideoMetadataLoaded 7, Elapse 5000, TimerFires 8, Elapse 60000, ClickEnd]"

definition followUpQuestion :: Question where
  "followUpQuestion = \<lparr>qid = 1, qtext = ''Could you expand on that?'', category = CatFollowUp, asked = False\<rparr>"

definition followUpTrace :: "Event list" where
  "followUpTrace =
     openingEvents (HttpResponse 200 (Json (Some [followUpQuestion]) None)) @ [ClickSkip]"

definition oneSkipTrace :: "Event list" where
  "oneSkipTrace = firstQuestionHeard @ [ClickSkip]"

definition budgetView :: "World \<Rightarrow> InterviewPhase \<times> QuestionCounts \<times> nat list" where
  "budgetView w =
     (interviewPhase (st w), questionCounts (st w), map questionId (responses (st w)))"

definition turnView :: "World \<Rightarrow> bool \<times> bool" where
  "turnView w = (aiSpeaking (st w), isListening (st w))"

definition timerView :: "World \<Rightarrow> bool \<times> nat list \<times> nat list \<times> nat list" where
  \<comment> \<open>the termination flag, the tracked timers, the pending timeouts, the pending intervals\<close>
  "timerView w = (isInterviewEnded (st w), timeoutsRef w, map tid (timers w), intervals w)"

definition tallyView :: "World \<Rightarrow> nat \<times> nat" where
  "tallyView w = (length (responses (st w)), countsSum (questionCounts (st w)))"

fun batchFailed :: "FetchResult \<Rightarrow> bool" where
  "batchFailed Rejected = True"
| "batchFailed (HttpResponse s Malformed) = True"
| "batchFailed (HttpResponse s (Json None t)) = True"
| "batchFailed (HttpResponse s (Json (Some []) t)) = True"
| "batchFailed (HttpResponse s (Json (Some (q # qs)) t)) = (\<not> responseOk s)"

fun batchOf :: "QuestionPhase \<Rightarrow> FetchResult \<Rightarrow> Question list" where
  "batchOf p (HttpResponse s (Json (Some (q # qs)) t)) =
     (if responseOk s then q # qs else fallbackQuestions p)"
| "batchOf p r = fallbackQuestions p"

definition introductionSkipped :: "Event list" where
  "introductionSkipped = openingEvents Rejected @ skipCycle 5 @ skipCycle 9 @ skipCycle 13"

definition lastActions :: "nat \<Rightarrow> World \<Rightarrow> Action list" where
  "lastActions n w = drop (length (trace w) - n) (trace w)"

definition firstTechnicalQuestion :: "FetchResult \<Rightarrow> Event list" where
  "firstTechnicalQuestion r =
     introductionSkipped @ [FetchCompletes 17 r, UtteranceEnds 18, Elapse 1000, TimerFires 19]"

fun submits :: "Event \<Rightarrow> bool" where
  \<comment> \<open>the events that hand an answer to \<^verbatim>\<open>handleResponse\<close>\<close>
  "submits ClickSkip = True"
| "submits (VoiceResult t) = True"
| "submits e = False"

definition tally :: "World \<Rightarrow> Response list \<times> QuestionCounts" where
  "tally w = (responses (st w), questionCounts (st w))"

fun budget :: "QuestionPhase \<Rightarrow> nat" where
  "budget PIntroduction = 3"
| "budget PTechnical = 5"
| "budget PBehavioral = 4"

definition fitsPhase :: "QuestionPhase \<Rightarrow> Question list \<Rightarrow> bool" where
  \<comment> \<open>a batch with as many questions as the phase asks, all of the phase's category, with
      distinct ids; the fallback tables are such batches\<close>
  "fitsPhase p qs \<longleftrightarrow>
     length qs = budget p \<and> list_all (\<lambda>q. category q = phaseCategory p) qs \<and>
     distinct (map qid qs)"

definition technicalBatch5 :: "Question list" where
  "technicalBatch5 =
     [\<lparr>qid = 21, qtext = ''Which database did you use?'', category = CatTechnical, asked = False\<rparr>,
      \<lparr>qid = 22, qtext = ''How do you test your code?'', category = CatTechnical, asked = False\<rparr>,
      \<lparr>qid = 23, qtext = ''What is a race condition?'', category = CatTechnical, asked = False\<rparr>,
      \<lparr>qid = 24, qtext = ''How do you review code?'', category = CatTechnical, asked = False\<rparr>,
      \<lparr>qid = 25, qtext = ''How do you profile a slow page?'', category = CatTechnical, asked = False\<rparr>]"


definition blank :: "string \<Rightarrow> bool" where
  "blank s \<longleftrightarrow> list_all isWhiteSpace s"

definition resultsOk :: "Adapter \<Rightarrow> bool" where
  "resultsOk a \<longleftrightarrow> list_all (\<lambda>t. t \<noteq> [] \<and> \<not> blank t) (results a)"



definition saidHello :: "Segment list" where
  "saidHello = [\<lparr>segTranscript = ''hello there'', isFinal = True\<rparr>]"


definition heardHello :: Adapter where
  "heardHello = the (adapterRun True [Started, Result saidHello, Passes 1000] idleAdapter)"


definition helloTurn :: "AdapterEvent list" where
  "helloTurn = [Started, Result saidHello, Passes 1500, TimerElapsed 0]"

section \<open>Properties of the session\<close>

text \<open>
  C6: submitting an answer (a transcript through \<^verbatim>\<open>handleResponse\<close>, or the skip sentinel
  through \<^verbatim>\<open>handleManualNext\<close>) from a render with no current question, or with the
  termination flag set, changes nothing at all: responses, counters, questions and phase
  are those of before.
\<close>

theorem submit_noop:
  "currentQuestion c = None \<or> isInterviewEnded c \<Longrightarrow>
     handleResponse c a w = w \<and> handleManualNext c w = w"
  by (auto simp: handleResponse_def handleManualNext_def split: option.splits)

theorem submit_noop_witness:
  "(currentQuestion (st mounted) = None \<or> isInterviewEnded (st mounted)) \<and>
   handleResponse (st mounted) ''I am a developer'' mounted = mounted \<and>
   handleManualNext (st mounted) mounted = mounted"
  using submit_noop [of "st mounted" "''I am a developer''" mounted]
  by (simp add: mounted_def initialRender_def)

lemma worldOk_createTimeout:
  "worldOk w \<Longrightarrow> balanced c \<Longrightarrow> worldOk (createTimeout c b d w)"
  by (simp add: worldOk_def createTimeout_def)

lemma worldOk_cancel: "worldOk w \<Longrightarrow> worldOk (speechSynthesisCancel w)"
  by (simp add: worldOk_def speechSynthesisCancel_def list_all_iff handlersOk_def)

lemma worldOk_aiSpeaking: "worldOk w \<Longrightarrow> worldOk (w\<lparr>st := (st w)\<lparr>aiSpeaking := b\<rparr>\<rparr>)"
  by (simp add: worldOk_def balanced_def)

lemma worldOk_isLoading: "worldOk w \<Longrightarrow> worldOk (w\<lparr>st := (st w)\<lparr>isLoading := b\<rparr>\<rparr>)"
  by (simp add: worldOk_def balanced_def)

lemma worldOk_speakQuestion:
  "worldOk w \<Longrightarrow> balanced c \<Longrightarrow> worldOk (speakQuestion c t k w)"
  using worldOk_cancel [OF worldOk_aiSpeaking [of w True]]
  by (simp add: speakQuestion_def Let_def worldOk_def handlersOk_def)

lemma worldOk_newFetch:
  "worldOk w \<Longrightarrow> balanced (contRender k) \<Longrightarrow> worldOk (newFetch k a w)"
  by (simp add: worldOk_def newFetch_def)

lemma fallback_nonempty: "fallbackQuestions p \<noteq> []"
  by (cases p) simp_all

lemma worldOk_installBatch: "worldOk w \<Longrightarrow> worldOk (installBatch qs w)"
  by (simp add: worldOk_def installBatch_def balanced_def)

lemma worldOk_startPhaseBatch:
  "worldOk w \<Longrightarrow> balanced c \<Longrightarrow> worldOk (startPhaseBatch c p qs w)"
proof -
  assume a: "worldOk w" "balanced c"
  let ?w1 = "installBatch qs w"
  let ?w2 = "?w1\<lparr>st := (st ?w1)\<lparr>currentQuestionIndex := 0\<rparr>\<rparr>"
  have "worldOk ?w1" using a by (intro worldOk_installBatch)
  then have "worldOk ?w2" by (simp add: worldOk_def balanced_def)
  then show ?thesis using a worldOk_createTimeout [of ?w2 c]
    by (simp add: startPhaseBatch_def Let_def)
qed

lemma worldOk_generateQuestionsForPhase:
  "worldOk w \<Longrightarrow> balanced c \<Longrightarrow> worldOk (generateQuestionsForPhase c p w)"
  using worldOk_newFetch [OF worldOk_isLoading [of w True], of "ForPhase p c"]
  by (simp add: generateQuestionsForPhase_def)

lemma worldOk_generateQuestionsForPhaseDone:
  assumes "worldOk w" "balanced c"
  shows "worldOk (generateQuestionsForPhaseDone c p r w)"
proof -
  have "\<And>qs. worldOk ((startPhaseBatch c p qs w)\<lparr>st := (st (startPhaseBatch c p qs w))\<lparr>isLoading := False\<rparr>\<rparr>)"
    using assms by (intro worldOk_isLoading worldOk_startPhaseBatch)
  then show ?thesis
    by (cases "(c, p, r, w)" rule: generateQuestionsForPhaseDone.cases) (simp_all add: Let_def)
qed

lemma worldOk_generateNextQuestionInPhase:
  "worldOk w \<Longrightarrow> balanced c \<Longrightarrow> worldOk (generateNextQuestionInPhase c p rs w)"
  using worldOk_newFetch [OF worldOk_isLoading [of w True], of "ForNextQuestion p c"]
  by (simp add: generateNextQuestionInPhase_def)

lemma worldOk_generateNextQuestionInPhaseDone:
  assumes "worldOk w" "balanced c"
  shows "worldOk (generateNextQuestionInPhaseDone c p r w)"
proof -
  have new: "\<And>t. worldOk (w\<lparr>st := (st w)\<lparr>currentQuestion :=
        Some \<lparr>qid = clock w, qtext = t, category = phaseCategory p, asked = False\<rparr>,
      questions := questions (st w) @ [\<lparr>qid = clock w, qtext = t, category = phaseCategory p, asked = False\<rparr>],
      currentQuestionIndex := length (questions c)\<rparr>\<rparr>)"
    using assms(1) by (simp add: worldOk_def balanced_def)
  show ?thesis
    using assms worldOk_isLoading worldOk_createTimeout [OF new assms(2)]
    by (cases "(c, p, r, w)" rule: generateNextQuestionInPhaseDone.cases)
       (simp_all add: Let_def)
qed

lemma worldOk_st:
  "worldOk w \<Longrightarrow> balanced r \<Longrightarrow> worldOk (w\<lparr>st := r\<rparr>)"
  by (simp add: worldOk_def)

lemma worldOk_handleResponse:
  assumes "worldOk w" "balanced c" "notFollowUp (answering c)"
  shows "worldOk (handleResponse c a w)"
proof (cases "answering c")
  case None
  with assms show ?thesis
    by (auto simp: handleResponse_def answering_def split: option.splits if_splits)
next
  case (Some q)
  then have cq: "currentQuestion c = Some q" and ne: "\<not> isInterviewEnded c"
    by (auto simp: answering_def split: if_splits)
  from assms(3) Some have pq: "category q \<noteq> CatFollowUp" by (simp add: notFollowUp_def)
  define k' where "k' =
     (if category q = CatIntroduction
      then (questionCounts c)\<lparr>introduction := introduction (questionCounts c) + 1\<rparr>
      else if category q = CatTechnical
      then (questionCounts c)\<lparr>technical := technical (questionCounts c) + 1\<rparr>
      else if category q = CatBehavioral
      then (questionCounts c)\<lparr>behavioral := behavioral (questionCounts c) + 1\<rparr>
      else questionCounts c)"
  define qs' where "qs' = map (\<lambda>x. if qid x = qid q then x\<lparr>asked := True\<rparr> else x) (questions c)"
  define rs' where "rs' = responses c @ [\<lparr>questionId = qid q, question = qtext q, answer = a,
                   timestamp = clock w, duration = 0\<rparr>]"
  have sum: "countsSum k' = countsSum (questionCounts c) + 1"
    using pq by (cases "category q") (simp_all add: countsSum_def k'_def)
  have len: "length rs' = length (responses c) + 1"
    by (simp add: rs'_def)
  let ?r = "(st w)\<lparr>responses := rs', isListening := False, questionCounts := k',
                      questions := qs'\<rparr>"
  have "balanced ?r"
    using assms(2) sum len by (simp add: balanced_def)
  then have "worldOk (w\<lparr>st := ?r\<rparr>)" using assms(1) by (rule worldOk_st [rotated])
  then have "worldOk (createTimeout c (NextStep k' rs') 2000 (w\<lparr>st := ?r\<rparr>))"
    using assms(2) by (rule worldOk_createTimeout)
  with cq ne show ?thesis
    by (simp add: handleResponse_def Let_def k'_def qs'_def rs'_def)
qed

lemma worldOk_endInterview:
  "worldOk w \<Longrightarrow> balanced c \<Longrightarrow> worldOk (endInterview c w)"
proof -
  assume a: "worldOk w" "balanced c"
  then have "worldOk (w\<lparr>st := (st w)\<lparr>interviewPhase := Ending, currentQuestion := None,
                               isListening := False\<rparr>\<rparr>)"
    by (simp add: worldOk_def balanced_def)
  with a show ?thesis by (simp add: endInterview_def worldOk_speakQuestion)
qed

lemma worldOk_askNextInPhase:
  "worldOk w \<Longrightarrow> balanced c \<Longrightarrow> worldOk (askNextInPhase c p rs w)"
proof -
  assume a: "worldOk w" "balanced c"
  let ?n = "currentQuestionIndex c + 1"
  have "worldOk (w\<lparr>st := (st w)\<lparr>currentQuestionIndex := ?n,
                                  currentQuestion := Some (questions c ! ?n)\<rparr>\<rparr>)"
    using a by (simp add: worldOk_def balanced_def)
  with a show ?thesis
    by (simp add: askNextInPhase_def Let_def worldOk_createTimeout
                  worldOk_generateNextQuestionInPhase)
qed

lemma worldOk_determineNextStep:
  "worldOk w \<Longrightarrow> balanced c \<Longrightarrow> worldOk (determineNextStep c k rs w)"
proof -
  assume a: "worldOk w" "balanced c"
  have t: "\<And>ph. worldOk (w\<lparr>st := (st w)\<lparr>interviewPhase := ph, currentQuestionIndex := 0,
                                  isLoading := True\<rparr>\<rparr>)"
    using a by (simp add: worldOk_def balanced_def)
  show ?thesis
    using a worldOk_newFetch [OF t, of "ForTechnical c"] worldOk_newFetch [OF t, of "ForBehavioral c"]
    by (simp add: determineNextStep_def worldOk_askNextInPhase worldOk_endInterview)
qed

lemma worldOk_announcePhase:
  "worldOk w \<Longrightarrow> balanced c \<Longrightarrow> worldOk (announcePhase c msg qs w)"
  by (simp add: announcePhase_def worldOk_speakQuestion worldOk_installBatch)

lemma worldOk_transitionDone:
  assumes "worldOk w" "balanced c"
  shows "worldOk (transitionDone c p msg r w)"
proof -
  have a: "\<And>qs. worldOk (announcePhase c msg qs (w\<lparr>st := (st w)\<lparr>isLoading := False\<rparr>\<rparr>))"
    using assms by (intro worldOk_announcePhase worldOk_isLoading)
  have b: "\<And>qs k. worldOk (speakQuestion c msg k
      ((installBatch qs w)\<lparr>st := (st (installBatch qs w))\<lparr>isLoading := False\<rparr>\<rparr>))"
    using assms by (intro worldOk_speakQuestion worldOk_isLoading worldOk_installBatch)
  show ?thesis
    by (cases "(c, p, msg, r, w)" rule: transitionDone.cases) (simp_all add: Let_def a b)
qed

lemma worldOk_phase: "worldOk w \<Longrightarrow> worldOk (w\<lparr>st := (st w)\<lparr>interviewPhase := ph\<rparr>\<rparr>)"
  by (simp add: worldOk_def balanced_def)

lemma worldOk_listening: "worldOk w \<Longrightarrow> worldOk (w\<lparr>st := (st w)\<lparr>isListening := b\<rparr>\<rparr>)"
  by (simp add: worldOk_def balanced_def)

lemma worldOk_startInterview: "worldOk w \<Longrightarrow> balanced c \<Longrightarrow> worldOk (startInterview c w)"
  by (simp add: startInterview_def giveVoiceInstructions_def worldOk_speakQuestion worldOk_phase)

lemma worldOk_clearAllTimeouts: "worldOk w \<Longrightarrow> worldOk (clearAllTimeouts w)"
  by (simp add: worldOk_def clearAllTimeouts_def list_all_iff)

lemma worldOk_frame [simp]:
  "worldOk (w\<lparr>tracks := ts\<rparr>) = worldOk w"
  "worldOk (w\<lparr>streamRef := sr\<rparr>) = worldOk w"
  "worldOk (w\<lparr>intervals := iv\<rparr>) = worldOk w"
  "worldOk (w\<lparr>postureCheckRef := pr\<rparr>) = worldOk w"
  "worldOk (w\<lparr>timeoutsRef := tr\<rparr>) = worldOk w"
  "worldOk (w\<lparr>trace := tc\<rparr>) = worldOk w"
  "worldOk (w\<lparr>clock := ck\<rparr>) = worldOk w"
  "worldOk (w\<lparr>nextId := ni\<rparr>) = worldOk w"
  "worldOk (w\<lparr>speechSynthRef := sy\<rparr>) = worldOk w"
  "worldOk (w\<lparr>mediaRequests := mr\<rparr>) = worldOk w"
  "worldOk (w\<lparr>videoLoads := vl\<rparr>) = worldOk w"
  by (simp_all add: worldOk_def)

lemma worldOk_renewed: "worldOk w \<Longrightarrow> worldOk (w\<lparr>listenRender := st w\<rparr>)"
  by (simp add: worldOk_def)

lemma worldOk_unhandle:
  "worldOk w \<Longrightarrow>
   worldOk (w\<lparr>synth := map (\<lambda>u. if uid u = i then u\<lparr>handlers := None\<rparr> else u) (synth w)\<rparr>)"
  by (auto simp: worldOk_def list_all_iff handlersOk_def)

lemma worldOk_handleEndInterview:
  assumes "worldOk w"
  shows "worldOk (handleEndInterview w)"
proof -
  define w1 where "w1 = w\<lparr>st := (st w)\<lparr>isInterviewEnded := True\<rparr>\<rparr>"
  define w2 where "w2 = speechSynthesisCancel w1"
  define w3 where "w3 = (case speechSynthRef w2 of None \<Rightarrow> w2
      | Some i \<Rightarrow> w2\<lparr>synth := map (\<lambda>u. if uid u = i then u\<lparr>handlers := None\<rparr> else u) (synth w2)\<rparr>)"
  define w4 where "w4 = (case streamRef w3 of None \<Rightarrow> w3
      | Some ids \<Rightarrow> w3\<lparr>tracks := stopTracks ids (tracks w3), streamRef := None\<rparr>)"
  define w5 where "w5 = clearAllTimeouts w4"
  define w6 where "w6 = (case postureCheckRef w5 of None \<Rightarrow> w5
      | Some i \<Rightarrow> w5\<lparr>intervals := filter (\<lambda>j. j \<noteq> i) (intervals w5), postureCheckRef := None\<rparr>)"
  define w7 where "w7 = w6\<lparr>st := (st w6)\<lparr>aiSpeaking := False, isListening := False,
                                  currentQuestion := None, isLoading := False,
                                  isCameraOn := False, isMicOn := False,
                                  isVideoLoaded := False, cameraError := None,
                                  microphoneError := None,
                                  cameraPermissionStatus := Unknown\<rparr>\<rparr>"
  have "worldOk w1" using assms by (simp add: w1_def worldOk_def balanced_def)
  then have "worldOk w2" by (simp add: w2_def worldOk_cancel)
  then have "worldOk w3" by (simp add: w3_def worldOk_unhandle split: option.splits)
  then have "worldOk w4" by (simp add: w4_def split: option.splits)
  then have "worldOk w5" by (simp add: w5_def worldOk_clearAllTimeouts)
  then have "worldOk w6" by (simp add: w6_def split: option.splits)
  then have "worldOk w7" by (simp add: w7_def worldOk_def balanced_def)
  moreover have "handleEndInterview w = w7\<lparr>trace := trace w7 @ [OnEnd]\<rparr>"
    unfolding handleEndInterview_def Let_def w7_def w6_def w5_def w4_def w3_def w2_def w1_def
    by (rule refl)
  ultimately show ?thesis by simp
qed

lemma worldOk_toggleCamera: "worldOk w \<Longrightarrow> worldOk (toggleCamera c w)"
  by (simp add: toggleCamera_def setTrackEnabled_def Let_def worldOk_def
                balanced_def split: option.splits)

lemma worldOk_toggleMic: "worldOk w \<Longrightarrow> worldOk (toggleMic c w)"
  by (simp add: toggleMic_def setTrackEnabled_def Let_def worldOk_def
                balanced_def split: option.splits)

lemma worldOk_handleManualNext:
  "worldOk w \<Longrightarrow> balanced c \<Longrightarrow> notFollowUp (answering c) \<Longrightarrow>
     worldOk (handleManualNext c w)"
  using worldOk_handleResponse [OF worldOk_aiSpeaking [OF worldOk_cancel [of w], of False], of c]
  by (simp add: handleManualNext_def Let_def)

lemma worldOk_onRestart: "worldOk w \<Longrightarrow> worldOk (onRestart w)"
  by (simp add: onRestart_def clearAllTimeouts_def worldOk_def balanced_def
                countsSum_def list_all_iff)

lemma worldOk_requestCameraPermission: "worldOk w \<Longrightarrow> worldOk (requestCameraPermission c w)"
  by (simp add: requestCameraPermission_def setTimeoutRaw_def Let_def worldOk_def
                balanced_def split: option.splits)

lemma worldOk_initializeCamera: "worldOk w \<Longrightarrow> worldOk (initializeCamera c w)"
  by (simp add: initializeCamera_def worldOk_def balanced_def)

lemma worldOk_startPostureMonitoring: "worldOk w \<Longrightarrow> worldOk (startPostureMonitoring w)"
  by (simp add: startPostureMonitoring_def worldOk_def)

lemma worldOk_afterVideoReady: "worldOk w \<Longrightarrow> worldOk (afterVideoReady c w)"
  by (simp add: afterVideoReady_def worldOk_startPostureMonitoring)

lemma worldOk_cameraGranted: "worldOk w \<Longrightarrow> worldOk (cameraGranted c w)"
  by (simp add: cameraGranted_def Let_def afterVideoReady_def startPostureMonitoring_def
        setTimeoutRaw_def worldOk_def balanced_def)

lemma worldOk_videoReady: "worldOk w \<Longrightarrow> worldOk (videoReady p c w)"
  by (simp add: videoReady_def afterVideoReady_def startPostureMonitoring_def
        worldOk_def balanced_def)

lemma worldOk_runOnComplete:
  "worldOk w \<Longrightarrow> balanced c \<Longrightarrow> worldOk (runOnComplete c k w)"
  by (cases k)
     (simp_all add: worldOk_createTimeout worldOk_generateQuestionsForPhase worldOk_phase)

lemma worldOk_utteranceOnEnd:
  "worldOk w \<Longrightarrow> balanced c \<Longrightarrow> worldOk (utteranceOnEnd c k w)"
  by (simp add: utteranceOnEnd_def Let_def worldOk_runOnComplete worldOk_createTimeout
                worldOk_aiSpeaking split: option.splits)

lemma worldOk_utteranceOnError:
  "worldOk w \<Longrightarrow> balanced c \<Longrightarrow> worldOk (utteranceOnError e c k w)"
  by (simp add: utteranceOnError_def Let_def worldOk_runOnComplete worldOk_createTimeout
                worldOk_aiSpeaking split: option.splits)

lemma worldOk_runTimerBody:
  "worldOk w \<Longrightarrow> balanced c \<Longrightarrow> worldOk (runTimerBody c b w)"
  by (cases b)
     (simp_all add: worldOk_speakQuestion worldOk_listening worldOk_determineNextStep
                    worldOk_phase)

lemma worldOk_runTimerFn:
  "worldOk w \<Longrightarrow> closureOk f \<Longrightarrow> worldOk (runTimerFn i f w)"
proof (cases f)
  case (Tracked c b)
  assume a: "worldOk w" "closureOk f"
  then have "worldOk (w\<lparr>timeoutsRef := filter (\<lambda>j. j \<noteq> i) (timeoutsRef w)\<rparr>)"
    by (simp add: worldOk_def)
  with a Tracked show ?thesis by (simp add: Let_def worldOk_runTimerBody)
next
  case (RetryInitializeCamera c)
  assume "worldOk w"
  with RetryInitializeCamera show ?thesis by (simp add: worldOk_initializeCamera)
next
  case (VideoLoadTimeout c p)
  assume "worldOk w"
  with VideoLoadTimeout show ?thesis by (simp add: worldOk_videoReady)
qed

lemma worldOk_runFetchCont:
  "worldOk w \<Longrightarrow> balanced (contRender k) \<Longrightarrow> worldOk (runFetchCont k r w)"
  by (cases k)
     (simp_all add: worldOk_generateQuestionsForPhaseDone worldOk_transitionDone
                    worldOk_generateNextQuestionInPhaseDone)

lemma filter_hd_in: "filter P xs = x # ys \<Longrightarrow> x \<in> set xs"
  by (metis filter_eq_ConsD in_set_conv_decomp)

lemma worldOk_dispatch:
  assumes "worldOk w" "notFollowUp (answered e w)" "dispatch e w = Some w'"
  shows "worldOk w'"
proof -
  have s: "balanced (st w)" and l: "balanced (listenRender w)"
    using assms(1) by (simp_all add: worldOk_def)
  show ?thesis
  proof (cases e)
    case (TimerFires i)
    with assms(3) obtain t ts where f: "filter (\<lambda>t. tid t = i) (timers w) = t # ts"
      and w': "w' = runTimerFn i (callback t) (w\<lparr>timers := filter (\<lambda>t. tid t \<noteq> i) (timers w)\<rparr>)"
      by (auto simp: dispatch_def split: list.splits if_splits)
    from f have "t \<in> set (timers w)" by (rule filter_hd_in)
    with assms(1) have c: "closureOk (callback t)" by (simp add: worldOk_def list_all_iff)
    have "worldOk (w\<lparr>timers := filter (\<lambda>t. tid t \<noteq> i) (timers w)\<rparr>)"
      using assms(1) by (simp add: worldOk_def list_all_iff)
    with c w' show ?thesis by (simp add: worldOk_runTimerFn)
  next
    case (UtteranceEnds i)
    with assms(3) obtain u us where f: "filter (\<lambda>u. uid u = i) (synth w) = u # us"
      and w': "w' = (case handlers u of None \<Rightarrow> w\<lparr>synth := filter (\<lambda>u. uid u \<noteq> i) (synth w)\<rparr>
                     | Some (c, k) \<Rightarrow> utteranceOnEnd c k (w\<lparr>synth := filter (\<lambda>u. uid u \<noteq> i) (synth w)\<rparr>))"
      by (auto simp: dispatch_def Let_def split: list.splits if_splits)
    from f have "u \<in> set (synth w)" by (rule filter_hd_in)
    with assms(1) have c: "handlersOk u" by (simp add: worldOk_def list_all_iff)
    have "worldOk (w\<lparr>synth := filter (\<lambda>u. uid u \<noteq> i) (synth w)\<rparr>)"
      using assms(1) by (simp add: worldOk_def list_all_iff)
    with c w' show ?thesis
      by (auto simp: handlersOk_def worldOk_utteranceOnEnd split: option.splits)
  next
    case (UtteranceErrors i err)
    with assms(3) obtain u us where f: "filter (\<lambda>u. uid u = i) (synth w) = u # us"
      and w': "w' = (case handlers u of None \<Rightarrow> w\<lparr>synth := filter (\<lambda>u. uid u \<noteq> i) (synth w)\<rparr>
                     | Some (c, k) \<Rightarrow> utteranceOnError err c k (w\<lparr>synth := filter (\<lambda>u. uid u \<noteq> i) (synth w)\<rparr>))"
      by (auto simp: dispatch_def Let_def split: list.splits if_splits)
    from f have "u \<in> set (synth w)" by (rule filter_hd_in)
    with assms(1) have c: "handlersOk u" by (simp add: worldOk_def list_all_iff)
    have "worldOk (w\<lparr>synth := filter (\<lambda>u. uid u \<noteq> i) (synth w)\<rparr>)"
      using assms(1) by (simp add: worldOk_def list_all_iff)
    with c w' show ?thesis
      by (auto simp: handlersOk_def worldOk_utteranceOnError split: option.splits)
  next
    case (FetchCompletes i r)
    with assms(3) obtain f fs where f: "filter (\<lambda>f. fst f = i) (fetches w) = f # fs"
      and w': "w' = runFetchCont (snd f) r (w\<lparr>fetches := filter (\<lambda>f. fst f \<noteq> i) (fetches w)\<rparr>)"
      by (auto simp: dispatch_def split: list.splits)
    from f have "f \<in> set (fetches w)" by (rule filter_hd_in)
    with assms(1) have c: "balanced (contRender (snd f))" by (simp add: worldOk_def list_all_iff)
    have "worldOk (w\<lparr>fetches := filter (\<lambda>f. fst f \<noteq> i) (fetches w)\<rparr>)"
      using assms(1) by (simp add: worldOk_def list_all_iff)
    with c w' show ?thesis by (simp add: worldOk_runFetchCont)
  next
    case (Elapse n)
    with assms show ?thesis by (auto simp: dispatch_def worldOk_def split: if_splits)
  qed (use assms s l in \<open>auto simp: dispatch_def worldOk_startInterview worldOk_handleManualNext
         worldOk_handleEndInterview worldOk_toggleMic worldOk_toggleCamera
         worldOk_requestCameraPermission worldOk_onRestart worldOk_handleResponse
         worldOk_listening worldOk_cameraGranted worldOk_videoReady worldOk_renewed
         split: if_splits list.splits\<close>)
qed

lemma worldOk_step:
  assumes "worldOk w" "notFollowUp (answered e w)" "step e w = Some w'"
  shows "worldOk w'"
proof -
  from assms(3) obtain w1 where d: "dispatch e w = Some w1"
    and w': "w' = (if isListening (st w1) = isListening (st w) then w1 else w1\<lparr>listenRender := st w1\<rparr>)"
    by (auto simp: step_def split: option.splits)
  from worldOk_dispatch [OF assms(1,2) d] have "worldOk w1" .
  with w' show ?thesis by (simp add: worldOk_def)
qed

lemma worldOk_run:
  "worldOk w \<Longrightarrow> noFollowUpAnswered es w \<Longrightarrow> run es w = Some w' \<Longrightarrow> worldOk w'"
proof (induction es arbitrary: w)
  case Nil
  then show ?case by simp
next
  case (Cons e es)
  from Cons.prems obtain w1 where s: "step e w = Some w1" and r: "run es w1 = Some w'"
    by (auto split: option.splits)
  from Cons.prems s have "worldOk w1" by (auto intro: worldOk_step)
  with Cons.IH [of w1] Cons.prems r s show ?case by simp
qed

lemma worldOk_mounted: "worldOk mounted"
  by (simp add: worldOk_def mounted_def initialRender_def balanced_def countsSum_def)


lemma fallback_folded:
  "fallbackQuestions PIntroduction =
     [mkQuestion 1 (fallbackText 1) CatIntroduction, mkQuestion 2 (fallbackText 2) CatIntroduction,
      mkQuestion 3 (fallbackText 3) CatIntroduction]"
  "fallbackQuestions PTechnical =
     [mkQuestion 4 (fallbackText 4) CatTechnical, mkQuestion 5 (fallbackText 5) CatTechnical,
      mkQuestion 6 (fallbackText 6) CatTechnical, mkQuestion 7 (fallbackText 7) CatTechnical,
      mkQuestion 8 (fallbackText 8) CatTechnical]"
  "fallbackQuestions PBehavioral =
     [mkQuestion 9 (fallbackText 9) CatBehavioral, mkQuestion 10 (fallbackText 10) CatBehavioral,
      mkQuestion 11 (fallbackText 11) CatBehavioral, mkQuestion 12 (fallbackText 12) CatBehavioral]"
  by (simp_all add: fallbackText_def mkQuestion_def)

text \<open>The definitions a run of events unfolds, and the fallback table with its texts folded.\<close>

lemmas session_defs =
  step_def dispatch_def mainScreen_def skipEnabled_def retryShown_def
  startInterview_def giveVoiceInstructions_def speakQuestion_def speechSynthesisCancel_def
  createTimeout_def setTimeoutRaw_def clearAllTimeouts_def newFetch_def
  generateQuestionsForPhase_def startPhaseBatch_def installBatch_def
  generateNextQuestionInPhase_def handleResponse_def endInterview_def askNextInPhase_def
  determineNextStep_def announcePhase_def handleEndInterview_def handleManualNext_def
  onRestart_def requestCameraPermission_def initializeCamera_def startPostureMonitoring_def
  afterVideoReady_def cameraGranted_def videoReady_def utteranceOnEnd_def
  utteranceOnError_def stopTracks_def firstTrack_def setTrackEnabled_def toggleMic_def
  toggleCamera_def responseOk_def mkQuestion_def Let_def

text \<open>
  C1 at a failing input: the first introduction question has been spoken, and the user
  clicks ``Skip Question'' four times before the settle timer of the first click fires.
  \<^verbatim>\<open>currentQuestion\<close> stays set until \<^verbatim>\<open>determineNextStep\<close> runs two seconds later, so
  every click appends a Response and increments the counter: the introduction counter is 4,
  above its budget of 3, with four responses for question 1.
\<close>

theorem skip_four_times_over_budget:
  "map_option budgetView (run overBudgetTrace mounted) =
     Some (Introduction, \<lparr>introduction = 4, technical = 0, behavioral = 0\<rparr>, [1, 1, 1, 1])"
  unfolding overBudgetTrace_def firstQuestionHeard_def openingEvents_def mounted_def
    initialRender_def
  by (simp add: session_defs fallback_folded budgetView_def del: fallbackQuestions.simps)

text \<open>
  C7 at a failing input: the first question has been spoken to its end, which schedules
  \<^verbatim>\<open>setIsListening(true)\<close> one second later; the user skips the question after half a
  second and stays silent.  \<^verbatim>\<open>handleResponse\<close> clears \<^verbatim>\<open>isListening\<close> but the pending
  timer sets it again, and \<^verbatim>\<open>speakQuestion\<close> then sets \<^verbatim>\<open>aiSpeaking\<close> for the second
  question: both flags are true.
\<close>

theorem speaking_while_listening:
  "map_option turnView (run bothFlagsTrace mounted) = Some (True, True)"
  unfolding bothFlagsTrace_def firstQuestionHeard_def openingEvents_def mounted_def
    initialRender_def
  by (simp add: session_defs fallback_folded turnView_def del: fallbackQuestions.simps)

text \<open>
  C2 at a failing input: the user clicks ``Retry Camera'' once; the camera is granted again
  and the video loads, which starts a second posture interval and overwrites
  \<^verbatim>\<open>postureCheckRef\<close>.  A minute later the user clicks ``End Interview''.
  \<^verbatim>\<open>handleEndInterview\<close> clears the tracked timeouts and the interval the ref names; the
  interval started at mount (id 2) is still registered.
\<close>

theorem posture_interval_survives_end:
  "map_option timerView (run retryLaterEndTrace mounted) = Some (True, [], [], [2])"
  unfolding retryLaterEndTrace_def mounted_def initialRender_def
  by (simp add: session_defs timerView_def)

text \<open>
  The same with a timeout: ``End Interview'' 50 ms after ``Retry Camera''.  The restart that
  \<^verbatim>\<open>requestCameraPermission\<close> registers with \<^verbatim>\<open>setTimeout\<close> is not in \<^verbatim>\<open>timeoutsRef\<close>; after
  \<^verbatim>\<open>handleEndInterview\<close> that timer (id 4) is still pending.
\<close>

lemma raw_timer_survives_end:
  "map_option timerView (run retryThenEndTrace mounted) = Some (True, [], [4], [])"
  unfolding retryThenEndTrace_def mounted_def initialRender_def
  by (simp add: session_defs timerView_def)

text \<open>
  C3, as stated: the response log is as long as the sum of the three counters.  The question
  service delivers one question of category \<^verbatim>\<open>follow-up\<close> (a value of the \<^verbatim>\<open>Question\<close>
  type); the user skips it.  \<^verbatim>\<open>handleResponse\<close> appends the Response and none of its three
  branches increments a counter: one response, counters summing to 0.
\<close>

theorem follow_up_counterexample:
  "map_option tallyView (run followUpTrace mounted) = Some (1, 0)"
  unfolding followUpTrace_def openingEvents_def mounted_def initialRender_def followUpQuestion_def
  by (simp add: session_defs tallyView_def countsSum_def)

lemma batchOf_failed: "batchFailed r \<Longrightarrow> batchOf p r = fallbackQuestions p"
  by (cases r rule: batchFailed.cases) simp_all

lemma batchOf_nonempty: "batchOf p r \<noteq> []"
  by (cases "(p, r)" rule: batchOf.cases) (simp_all add: fallback_nonempty)

lemma generateQuestionsForPhaseDone_eq:
  "generateQuestionsForPhaseDone c p r w =
     (startPhaseBatch c p (batchOf p r) w)
       \<lparr>st := (st (startPhaseBatch c p (batchOf p r) w))\<lparr>isLoading := False\<rparr>\<rparr>"
  by (cases "(p, r)" rule: batchOf.cases) (simp_all add: Let_def)

lemma transitionDone_eq:
  "transitionDone c p msg r w =
     speakQuestion c msg (Some (AfterTransition (hd (batchOf p r))))
       (installBatch (batchOf p r) (w\<lparr>st := (st w)\<lparr>isLoading := False\<rparr>\<rparr>))"
  by (cases "(p, r)" rule: batchOf.cases)
     (simp_all add: Let_def announcePhase_def installBatch_def speakQuestion_def
                    speechSynthesisCancel_def)

lemma tally_frame [simp]:
  "tally (createTimeout c b d w) = tally w"
  "tally (setTimeoutRaw f d w) = tally w"
  "tally (speechSynthesisCancel w) = tally w"
  "tally (speakQuestion c t k w) = tally w"
  "tally (newFetch fc a w) = tally w"
  "tally (installBatch qs w) = tally w"
  "tally (initializeCamera c w) = tally w"
  "tally (requestCameraPermission c w) = tally w"
  "tally (toggleMic c w) = tally w"
  "tally (toggleCamera c w) = tally w"
  "tally (handleEndInterview w) = tally w"
  "tally (startPostureMonitoring w) = tally w"
  "tally (afterVideoReady c w) = tally w"
  "tally (cameraGranted c w) = tally w"
  "tally (videoReady p c w) = tally w"
  "tally (w\<lparr>mediaRequests := mr\<rparr>) = tally w"
  "tally (w\<lparr>listenRender := lr\<rparr>) = tally w"
  by (simp_all add: tally_def startPostureMonitoring_def afterVideoReady_def cameraGranted_def
        videoReady_def createTimeout_def setTimeoutRaw_def speechSynthesisCancel_def
        speakQuestion_def newFetch_def installBatch_def initializeCamera_def
        requestCameraPermission_def toggleMic_def toggleCamera_def setTrackEnabled_def
        handleEndInterview_def clearAllTimeouts_def Let_def split: option.splits)

lemma tally_st [simp]:
  "tally (w\<lparr>st := (st w)\<lparr>isLoading := b\<rparr>\<rparr>) = tally w"
  "tally (w\<lparr>st := (st w)\<lparr>aiSpeaking := b\<rparr>\<rparr>) = tally w"
  "tally (w\<lparr>st := (st w)\<lparr>isListening := b\<rparr>\<rparr>) = tally w"
  "tally (w\<lparr>st := (st w)\<lparr>interviewPhase := ph\<rparr>\<rparr>) = tally w"
  "tally (w\<lparr>timers := ts\<rparr>) = tally w"
  "tally (w\<lparr>timeoutsRef := tr\<rparr>) = tally w"
  "tally (w\<lparr>synth := sy\<rparr>) = tally w"
  "tally (w\<lparr>fetches := fs\<rparr>) = tally w"
  "tally (w\<lparr>clock := ck\<rparr>) = tally w"
  by (simp_all add: tally_def)

lemma tally_startPhaseBatch [simp]: "tally (startPhaseBatch c p qs w) = tally w"
  by (simp add: startPhaseBatch_def Let_def) (simp add: tally_def installBatch_def)

lemma tally_generateQuestionsForPhase [simp]: "tally (generateQuestionsForPhase c p w) = tally w"
  by (simp add: generateQuestionsForPhase_def)

lemma tally_generateNextQuestionInPhase [simp]:
  "tally (generateNextQuestionInPhase c p rs w) = tally w"
  by (simp add: generateNextQuestionInPhase_def)

lemma tally_endInterview [simp]: "tally (endInterview c w) = tally w"
  by (simp add: endInterview_def) (simp add: tally_def speakQuestion_def speechSynthesisCancel_def Let_def)

lemma tally_askNextInPhase [simp]: "tally (askNextInPhase c p rs w) = tally w"
  by (simp add: askNextInPhase_def Let_def) (simp add: tally_def createTimeout_def)

lemma tally_determineNextStep [simp]: "tally (determineNextStep c k rs w) = tally w"
  by (simp add: determineNextStep_def) (simp add: tally_def newFetch_def)

lemma tally_runOnComplete [simp]: "tally (runOnComplete c k w) = tally w"
  by (cases k) simp_all

lemma tally_utterance [simp]:
  "tally (utteranceOnEnd c k w) = tally w"
  "tally (utteranceOnError e c k w) = tally w"
  by (simp_all add: utteranceOnEnd_def utteranceOnError_def Let_def split: option.splits)

lemma tally_runTimerBody [simp]: "tally (runTimerBody c b w) = tally w"
proof (cases b)
  case StartListening
  then show ?thesis by (simp add: tally_def)
next
  case ShowFeedback
  then show ?thesis by (simp add: tally_def)
qed simp_all

lemma tally_runTimerFn [simp]: "tally (runTimerFn i f w) = tally w"
proof (cases f)
  case (Tracked c b)
  then show ?thesis by (simp add: Let_def)
next
  case (RetryInitializeCamera c)
  then show ?thesis by simp
next
  case (VideoLoadTimeout c p)
  then show ?thesis by simp
qed

lemma tally_runFetchCont [simp]: "tally (runFetchCont k r w) = tally w"
proof (cases k)
  case (ForNextQuestion p c)
  then show ?thesis
    by (cases "(c, p, r, w)" rule: generateNextQuestionInPhaseDone.cases)
       (simp_all add: Let_def tally_def createTimeout_def)
qed (simp_all add: generateQuestionsForPhaseDone_eq transitionDone_eq)

lemma tally_startInterview [simp]: "tally (startInterview c w) = tally w"
  by (simp add: startInterview_def giveVoiceInstructions_def)

lemma other_events_keep_tally:
  assumes "step e w = Some w'" "\<not> submits e" "e \<noteq> ClickRestart"
  shows "tally w' = tally w"
proof -
  from assms(1) obtain w1 where d: "dispatch e w = Some w1" and t: "tally w' = tally w1"
    by (auto simp: step_def tally_def split: option.splits)
  from d assms(2,3) have "tally w1 = tally w"
    by (cases e)
       (auto simp: dispatch_def Let_def split: if_splits list.splits option.splits prod.splits)
  with t show ?thesis by simp
qed

lemma restart_resets_tally:
  "step ClickRestart w = Some w' \<Longrightarrow>
     tally w' = ([], \<lparr>introduction = 0, technical = 0, behavioral = 0\<rparr>)"
  by (auto simp: step_def dispatch_def onRestart_def clearAllTimeouts_def tally_def
           split: if_splits)

lemma handleResponse_tally:
  assumes "currentQuestion c = Some q" "\<not> isInterviewEnded c"
  shows "responses (st (handleResponse c a w)) =
           responses c @ [\<lparr>questionId = qid q, question = qtext q, answer = a,
                           timestamp = clock w, duration = 0\<rparr>] \<and>
         questionCounts (st (handleResponse c a w)) =
           (case category q of
              CatIntroduction \<Rightarrow>
                \<lparr>introduction = introduction (questionCounts c) + 1,
                 technical = technical (questionCounts c),
                 behavioral = behavioral (questionCounts c)\<rparr>
            | CatTechnical \<Rightarrow>
                \<lparr>introduction = introduction (questionCounts c),
                 technical = technical (questionCounts c) + 1,
                 behavioral = behavioral (questionCounts c)\<rparr>
            | CatBehavioral \<Rightarrow>
                \<lparr>introduction = introduction (questionCounts c),
                 technical = technical (questionCounts c),
                 behavioral = behavioral (questionCounts c) + 1\<rparr>
            | CatFollowUp \<Rightarrow> questionCounts c)"
  using assms
  by (cases "category q")
     (simp_all add: handleResponse_def createTimeout_def Let_def)

text \<open>
  C3, amended: in a session in which no question of category \<^verbatim>\<open>follow-up\<close> is answered, the
  response log is as long as the sum of the three counters after every event, whatever the
  events are (clicks, timers, utterance events, fetch results, camera events, voice results,
  restart).  Only an answer changes the two: \<^verbatim>\<open>handleResponse\<close> appends one Response to the
  log of its render and adds one to the counter of the answered question's category,
  leaving the two other counters as they are (and all three for a \<^verbatim>\<open>follow-up\<close> question);
  every event that is neither an answer nor the restart leaves log and counters as they
  are, and the restart empties both.  The invariant behind the equality, \<open>worldOk\<close>, also
  covers the renders that pending callbacks close over.
\<close>

theorem responses_match_counters:
  assumes "run es mounted = Some w" and "noFollowUpAnswered es mounted"
  shows "length (responses (st w)) = countsSum (questionCounts (st w)) \<and>
         (\<forall>c q a. currentQuestion c = Some q \<and> \<not> isInterviewEnded c \<longrightarrow>
            responses (st (handleResponse c a w)) =
              responses c @ [\<lparr>questionId = qid q, question = qtext q, answer = a,
                              timestamp = clock w, duration = 0\<rparr>] \<and>
            questionCounts (st (handleResponse c a w)) =
              (case category q of
                 CatIntroduction \<Rightarrow>
                   \<lparr>introduction = introduction (questionCounts c) + 1,
                    technical = technical (questionCounts c),
                    behavioral = behavioral (questionCounts c)\<rparr>
               | CatTechnical \<Rightarrow>
                   \<lparr>introduction = introduction (questionCounts c),
                    technical = technical (questionCounts c) + 1,
                    behavioral = behavioral (questionCounts c)\<rparr>
               | CatBehavioral \<Rightarrow>
                   \<lparr>introduction = introduction (questionCounts c),
                    technical = technical (questionCounts c),
                    behavioral = behavioral (questionCounts c) + 1\<rparr>
               | CatFollowUp \<Rightarrow> questionCounts c)) \<and>
         (\<forall>e w'. step e w = Some w' \<and> \<not> submits e \<and> e \<noteq> ClickRestart \<longrightarrow>
            tally w' = tally w) \<and>
         (\<forall>w'. step ClickRestart w = Some w' \<longrightarrow>
            tally w' = ([], \<lparr>introduction = 0, technical = 0, behavioral = 0\<rparr>))"
proof -
  have "length (responses (st w)) = countsSum (questionCounts (st w))"
    using worldOk_run [OF worldOk_mounted assms(2,1)]
    by (simp add: worldOk_def balanced_def)
  then show ?thesis
    using handleResponse_tally other_events_keep_tally restart_resets_tally by blast
qed

lemma oneSkip_runs:
  "map_option budgetView (run oneSkipTrace mounted) =
     Some (Introduction, \<lparr>introduction = 1, technical = 0, behavioral = 0\<rparr>, [1])"
  unfolding oneSkipTrace_def firstQuestionHeard_def openingEvents_def mounted_def initialRender_def
  by (simp add: session_defs fallback_folded budgetView_def del: fallbackQuestions.simps)

lemma oneSkip_answers: "noFollowUpAnswered oneSkipTrace mounted"
  unfolding oneSkipTrace_def firstQuestionHeard_def openingEvents_def mounted_def initialRender_def
  by (simp add: session_defs fallback_folded notFollowUp_def answering_def
           del: fallbackQuestions.simps)

theorem responses_match_counters_witness:
  "noFollowUpAnswered oneSkipTrace mounted \<and> run oneSkipTrace mounted \<noteq> None \<and>
   length (responses (st (the (run oneSkipTrace mounted)))) =
     countsSum (questionCounts (st (the (run oneSkipTrace mounted)))) \<and>
   map questionId (responses (st (the (run oneSkipTrace mounted)))) = [1] \<and>
   questionCounts (st (the (run oneSkipTrace mounted))) =
     \<lparr>introduction = 1, technical = 0, behavioral = 0\<rparr>"
proof -
  from oneSkip_runs obtain w where r: "run oneSkipTrace mounted = Some w"
    and t: "budgetView w =
              (Introduction, \<lparr>introduction = 1, technical = 0, behavioral = 0\<rparr>, [1])" by auto
  from responses_match_counters [OF r oneSkip_answers] r oneSkip_answers t show ?thesis
    by (simp add: budgetView_def)
qed


lemma follow_up_answered: "\<not> noFollowUpAnswered followUpTrace mounted"
  unfolding followUpTrace_def openingEvents_def mounted_def initialRender_def followUpQuestion_def
  by (simp add: session_defs notFollowUp_def answering_def)

lemmas trace_defs =
  openingEvents_def answerCycle_def skipCycle_def mounted_def initialRender_def

lemma runFetchCont_batch:
  "runFetchCont (ForPhase p c) r w =
     (startPhaseBatch c p (batchOf p r) w)
       \<lparr>st := (st (startPhaseBatch c p (batchOf p r) w))\<lparr>isLoading := False\<rparr>\<rparr>"
  "runFetchCont (ForTechnical c) r w =
     speakQuestion c technicalTransitionMessage
       (Some (AfterTransition (hd (batchOf PTechnical r))))
       (installBatch (batchOf PTechnical r) (w\<lparr>st := (st w)\<lparr>isLoading := False\<rparr>\<rparr>))"
  "runFetchCont (ForBehavioral c) r w =
     speakQuestion c behavioralTransitionMessage
       (Some (AfterTransition (hd (batchOf PBehavioral r))))
       (installBatch (batchOf PBehavioral r) (w\<lparr>st := (st w)\<lparr>isLoading := False\<rparr>\<rparr>))"
  by (simp_all add: generateQuestionsForPhaseDone_eq transitionDone_eq)

lemma answers_failed:
  assumes "batchFailed r"
  shows "map_option answersView (run (answerIntroduction r a1 a2 a3) mounted) =
     Some (Technical, [(1, a1), (2, a2), (3, a3)])"
  unfolding answerIntroduction_def trace_defs
  by (simp add: session_defs runFetchCont_batch batchOf_failed [OF assms] fallback_folded
                answersView_def
           del: fallbackQuestions.simps runFetchCont.simps)

text \<open>
  C5 at a failing input: the introduction fetch is rejected, so the fallback table with the
  questions 1, 2 and 3 is installed and question 1 is spoken.  The user clicks
  ``Skip Question'' four times before the settle timer of the first click fires.  Every
  click logs a Response for question 1; the third settle timer finds the counter at 3 and
  moves the session to the technical phase.  The log holds four responses, all of them for
  question 1: the fallback questions 2 and 3 produce no Response.
\<close>

theorem failed_fetch_questions_unanswered:
  "map_option fallbackView (run fourSkipsSettled mounted) =
     Some (Technical, [1, 2, 3], [1, 1, 1, 1])"
  unfolding fourSkipsSettled_def overBudgetTrace_def firstQuestionHeard_def openingEvents_def
    mounted_def initialRender_def
  by (simp add: session_defs fallback_folded fallbackView_def del: fallbackQuestions.simps)

text \<open>
  A second failing input, with one answer of the user per question: question 1 is skipped
  half a second after it was spoken, question 2 is answered by voice.  The recognition
  component still holds the \<^verbatim>\<open>handleResponse\<close> of the render in which question 1 was
  current, so the answer to question 2 is logged as a second Response for question 1.
\<close>

lemma voice_answer_logged_for_skipped_question:
  "map_option answersView (run (skipThenSpeak ''I write compilers'') mounted) =
     Some (Introduction, [(1, skipSentinel), (1, ''I write compilers'')])"
  unfolding skipThenSpeak_def bothFlagsTrace_def firstQuestionHeard_def openingEvents_def
    mounted_def initialRender_def
  by (simp add: session_defs fallback_folded answersView_def del: fallbackQuestions.simps)

text \<open>
  What holds of C5 on the code.  When the question-batch fetch fails (rejected, a status
  outside 200..299, a body that does not parse, or a body without questions),
  \<^verbatim>\<open>generateQuestionsForPhase\<close> and the phase transition of \<^verbatim>\<open>determineNextStep\<close> install
  the fallback table of the phase (3, 5 and 4 questions), make its first question current
  and go on: the introduction schedules the first question, a transition speaks its
  announcement.  When every question is answered once, after the microphone has opened for
  it, a failed introduction fetch gives the three responses of the fallback questions 1, 2
  and 3, one each (lemma \<open>answers_failed\<close>).
\<close>

lemma fallback_substitution:
  assumes "batchFailed r" and "\<not> isInterviewEnded c"
  shows "questions (st (generateQuestionsForPhaseDone c p r w)) = fallbackQuestions p \<and>
         currentQuestion (st (generateQuestionsForPhaseDone c p r w)) =
           Some (hd (fallbackQuestions p)) \<and>
         \<not> isLoading (st (generateQuestionsForPhaseDone c p r w)) \<and>
         timers (generateQuestionsForPhaseDone c PIntroduction r w) =
           timers w @ [\<lparr>tid = nextId w, due = clock w + 1000,
                        callback = Tracked c (SpeakText (qtext (hd (fallbackQuestions PIntroduction))))\<rparr>] \<and>
         questions (st (transitionDone c p msg r w)) = fallbackQuestions p \<and>
         currentQuestion (st (transitionDone c p msg r w)) = Some (hd (fallbackQuestions p)) \<and>
         \<not> isLoading (st (transitionDone c p msg r w)) \<and>
         synth (transitionDone c p msg r w) =
           map (\<lambda>u. u\<lparr>cancelled := True\<rparr>) (synth w) @
           [\<lparr>uid = nextId w, utext = msg, cancelled = False,
             handlers = Some (c, Some (AfterTransition (hd (fallbackQuestions p))))\<rparr>] \<and>
         map (\<lambda>p. length (fallbackQuestions p)) [PIntroduction, PTechnical, PBehavioral] = [3, 5, 4]"
proof -
  have g: "questions (st (generateQuestionsForPhaseDone c p r w)) = fallbackQuestions p \<and>
         currentQuestion (st (generateQuestionsForPhaseDone c p r w)) =
           Some (hd (fallbackQuestions p)) \<and>
         \<not> isLoading (st (generateQuestionsForPhaseDone c p r w))"
    using assms(1)
    by (simp add: generateQuestionsForPhaseDone_eq batchOf_failed startPhaseBatch_def
                  installBatch_def createTimeout_def Let_def del: fallbackQuestions.simps)
  have i: "timers (generateQuestionsForPhaseDone c PIntroduction r w) =
           timers w @ [\<lparr>tid = nextId w, due = clock w + 1000,
                        callback = Tracked c (SpeakText (qtext (hd (fallbackQuestions PIntroduction))))\<rparr>]"
    using assms(1)
    by (simp add: generateQuestionsForPhaseDone_eq batchOf_failed startPhaseBatch_def
                  installBatch_def createTimeout_def Let_def del: fallbackQuestions.simps)
  have t: "questions (st (transitionDone c p msg r w)) = fallbackQuestions p \<and>
         currentQuestion (st (transitionDone c p msg r w)) = Some (hd (fallbackQuestions p)) \<and>
         \<not> isLoading (st (transitionDone c p msg r w)) \<and>
         synth (transitionDone c p msg r w) =
           map (\<lambda>u. u\<lparr>cancelled := True\<rparr>) (synth w) @
           [\<lparr>uid = nextId w, utext = msg, cancelled = False,
             handlers = Some (c, Some (AfterTransition (hd (fallbackQuestions p))))\<rparr>]"
    using assms
    by (simp add: transitionDone_eq batchOf_failed speakQuestion_def speechSynthesisCancel_def
                  installBatch_def Let_def del: fallbackQuestions.simps)
  have l: "map (\<lambda>p. length (fallbackQuestions p)) [PIntroduction, PTechnical, PBehavioral] = [3, 5, 4]"
    by simp
  from g i t l show ?thesis by blast
qed

lemma fits3:
  assumes "fitsPhase PIntroduction qs"
  obtains a b c where "qs = [a, b, c]"
    "list_all (\<lambda>q. category q = CatIntroduction) [a, b, c]"
    "distinct (map qid [a, b, c])"
proof -
  from assms have l: "length qs = 3" by (simp add: fitsPhase_def)
  then obtain a b c where q: "qs = [a, b, c]"
    by (auto simp: length_Suc_conv eval_nat_numeral)
  with assms show ?thesis by (intro that [of a b c]) (auto simp: fitsPhase_def)
qed

lemma fits5:
  assumes "fitsPhase PTechnical qs"
  obtains a b c d e where "qs = [a, b, c, d, e]"
    "list_all (\<lambda>q. category q = CatTechnical) [a, b, c, d, e]"
    "distinct (map qid [a, b, c, d, e])"
proof -
  from assms have l: "length qs = 5" by (simp add: fitsPhase_def)
  then obtain a b c d e where q: "qs = [a, b, c, d, e]"
    by (auto simp: length_Suc_conv eval_nat_numeral)
  with assms show ?thesis by (intro that [of a b c d e]) (auto simp: fitsPhase_def)
qed

lemma fits4:
  assumes "fitsPhase PBehavioral qs"
  obtains a b c d where "qs = [a, b, c, d]"
    "list_all (\<lambda>q. category q = CatBehavioral) [a, b, c, d]"
    "distinct (map qid [a, b, c, d])"
proof -
  from assms have l: "length qs = 4" by (simp add: fitsPhase_def)
  then obtain a b c d where q: "qs = [a, b, c, d]"
    by (auto simp: length_Suc_conv eval_nat_numeral)
  with assms show ?thesis by (intro that [of a b c d]) (auto simp: fitsPhase_def)
qed

lemma fallback_fits: "fitsPhase p (fallbackQuestions p)"
  by (cases p) (simp_all add: fitsPhase_def mkQuestion_def)

lemma failed_batch_fits: "batchFailed r \<Longrightarrow> fitsPhase p (batchOf p r)"
  by (simp add: batchOf_failed fallback_fits del: fallbackQuestions.simps)

lemma skipped_view:
  assumes "fitsPhase PIntroduction (batchOf PIntroduction r1)"
      and "fitsPhase PTechnical (batchOf PTechnical r2)"
      and "fitsPhase PBehavioral (batchOf PBehavioral r3)"
  shows "map_option skippedView (run (skipEverything r1 r2 r3) mounted) =
     Some (Feedback, \<lparr>introduction = 3, technical = 5, behavioral = 4\<rparr>,
       map (\<lambda>q. (qid q, skipSentinel))
         (batchOf PIntroduction r1 @ batchOf PTechnical r2 @ batchOf PBehavioral r3))"
proof -
  from assms(1) obtain a1 a2 a3 where b1: "batchOf PIntroduction r1 = [a1, a2, a3]"
    and c1: "list_all (\<lambda>q. category q = CatIntroduction) [a1, a2, a3]"
    and d1: "distinct (map qid [a1, a2, a3])"
    by (rule fits3)
  from assms(2) obtain t1 t2 t3 t4 t5 where b2: "batchOf PTechnical r2 = [t1, t2, t3, t4, t5]"
    and c2: "list_all (\<lambda>q. category q = CatTechnical) [t1, t2, t3, t4, t5]"
    and d2: "distinct (map qid [t1, t2, t3, t4, t5])"
    by (rule fits5)
  from assms(3) obtain h1 h2 h3 h4 where b3: "batchOf PBehavioral r3 = [h1, h2, h3, h4]"
    and c3: "list_all (\<lambda>q. category q = CatBehavioral) [h1, h2, h3, h4]"
    and d3: "distinct (map qid [h1, h2, h3, h4])"
    by (rule fits4)
  from d1 have d1': "distinct (map qid [a3, a2, a1])" by auto
  from d2 have d2': "distinct (map qid [t5, t4, t3, t2, t1])" by auto
  from d3 have d3': "distinct (map qid [h4, h3, h2, h1])" by auto
  show ?thesis
    unfolding skipEverything_def trace_defs
    using c1 d1 d1' c2 d2 d2' c3 d3 d3'
    by (simp add: session_defs runFetchCont_batch b1 b2 b3 skippedView_def
             del: fallbackQuestions.simps runFetchCont.simps)
qed

text \<open>
  C8: from the start of the interview the user skips each question once it has been spoken
  and the microphone has opened.  Whenever the three batches that get installed (the fetched
  ones, or the fallback tables on a failure) hold 3 introduction, 5 technical and 4
  behavioral questions, 12 skips later the session is in phase \<^verbatim>\<open>feedback\<close> with exactly
  12 responses, one per question in order, each with the answer
  ``User skipped this question''.
\<close>

theorem skip_everything_reaches_feedback:
  assumes "fitsPhase PIntroduction (batchOf PIntroduction r1)"
      and "fitsPhase PTechnical (batchOf PTechnical r2)"
      and "fitsPhase PBehavioral (batchOf PBehavioral r3)"
  shows "\<exists>w. run (skipEverything r1 r2 r3) mounted = Some w \<and>
             interviewPhase (st w) = Feedback \<and>
             length (responses (st w)) = 12 \<and>
             list_all (\<lambda>r. answer r = ''User skipped this question'') (responses (st w)) \<and>
             map questionId (responses (st w)) =
               map qid (batchOf PIntroduction r1 @ batchOf PTechnical r2 @ batchOf PBehavioral r3) \<and>
             questionCounts (st w) = \<lparr>introduction = 3, technical = 5, behavioral = 4\<rparr>"
proof -
  let ?qs = "batchOf PIntroduction r1 @ batchOf PTechnical r2 @ batchOf PBehavioral r3"
  from skipped_view [OF assms] obtain w where r: "run (skipEverything r1 r2 r3) mounted = Some w"
    and v: "skippedView w = (Feedback, \<lparr>introduction = 3, technical = 5, behavioral = 4\<rparr>,
       map (\<lambda>q. (qid q, skipSentinel)) ?qs)"
    by auto
  from v have ph: "interviewPhase (st w) = Feedback"
    and k: "questionCounts (st w) = \<lparr>introduction = 3, technical = 5, behavioral = 4\<rparr>"
    and m: "map (\<lambda>r. (questionId r, answer r)) (responses (st w)) =
            map (\<lambda>q. (qid q, skipSentinel)) ?qs"
    by (simp_all add: skippedView_def)
  from arg_cong [OF m, of "map fst"] have ids: "map questionId (responses (st w)) = map qid ?qs"
    by (simp add: comp_def)
  from arg_cong [OF m, of "map snd"]
  have ans: "map answer (responses (st w)) = map (\<lambda>q. skipSentinel) ?qs"
    by (simp add: comp_def)
  have "length ?qs = 12"
    using assms by (simp add: fitsPhase_def)
  with arg_cong [OF ids, of length] have len: "length (responses (st w)) = 12"
    by simp
  from ans have "\<forall>x\<in>set (map answer (responses (st w))). x = skipSentinel"
    by auto
  then have all: "list_all (\<lambda>r. answer r = ''User skipped this question'') (responses (st w))"
    by (simp add: list_all_iff skipSentinel_def)
  show ?thesis
    by (rule exI [of _ w]) (simp only: r ph len all ids k simp_thms)
qed

theorem skip_everything_reaches_feedback_witness:
  "fitsPhase PIntroduction (batchOf PIntroduction Rejected) \<and>
   fitsPhase PTechnical (batchOf PTechnical (HttpResponse 200 (Json (Some technicalBatch5) None))) \<and>
   fitsPhase PBehavioral (batchOf PBehavioral (HttpResponse 500 Malformed)) \<and>
   run (skipEverything Rejected (HttpResponse 200 (Json (Some technicalBatch5) None))
          (HttpResponse 500 Malformed)) mounted \<noteq> None \<and>
   map questionId (responses (st (the
     (run (skipEverything Rejected (HttpResponse 200 (Json (Some technicalBatch5) None))
            (HttpResponse 500 Malformed)) mounted)))) =
     [1, 2, 3, 21, 22, 23, 24, 25, 9, 10, 11, 12]"
proof -
  have f: "fitsPhase PIntroduction (batchOf PIntroduction Rejected)"
    "fitsPhase PTechnical (batchOf PTechnical (HttpResponse 200 (Json (Some technicalBatch5) None)))"
    "fitsPhase PBehavioral (batchOf PBehavioral (HttpResponse 500 Malformed))"
    by (simp_all add: fitsPhase_def technicalBatch5_def responseOk_def mkQuestion_def)
  have q: "map qid (batchOf PIntroduction Rejected @
                   batchOf PTechnical (HttpResponse 200 (Json (Some technicalBatch5) None)) @
                   batchOf PBehavioral (HttpResponse 500 Malformed)) =
           [1, 2, 3, 21, 22, 23, 24, 25, 9, 10, 11, 12]"
    by (simp add: technicalBatch5_def responseOk_def mkQuestion_def)
  from skip_everything_reaches_feedback [OF f] obtain w where
    "run (skipEverything Rejected (HttpResponse 200 (Json (Some technicalBatch5) None))
            (HttpResponse 500 Malformed)) mounted = Some w"
    and "map questionId (responses (st w)) =
           map qid (batchOf PIntroduction Rejected @
                    batchOf PTechnical (HttpResponse 200 (Json (Some technicalBatch5) None)) @
                    batchOf PBehavioral (HttpResponse 500 Malformed))"
    by blast
  with f q show ?thesis by simp
qed

text \<open>
  C4: when a counter has reached its budget, \<^verbatim>\<open>determineNextStep\<close> only sends the batch
  request: nothing is spoken and no timer is set.  The continuation of the fetch, whatever
  the result \<open>r\<close>, first installs the batch \<open>batchOf p r\<close> (the fetched questions, or the
  fallback table on every failure) and then speaks the transition announcement, setting no
  timer.  Only the completion of that utterance (its end or its error event) schedules the
  first question of the new phase, which is spoken when that timer fires.
\<close>

theorem transition_order:
  assumes "\<not> isInterviewEnded c"
  shows
   "(interviewPhase c = Introduction \<and> 3 \<le> introduction k \<longrightarrow>
       trace (determineNextStep c k rs w) = trace w @ [PostGenerateQuestions PTechnical] \<and>
       fetches (determineNextStep c k rs w) = fetches w @ [(nextId w, ForTechnical c)] \<and>
       synth (determineNextStep c k rs w) = synth w \<and>
       timers (determineNextStep c k rs w) = timers w) \<and>
    (interviewPhase c = Technical \<and> 5 \<le> technical k \<longrightarrow>
       trace (determineNextStep c k rs w) = trace w @ [PostGenerateQuestions PBehavioral] \<and>
       fetches (determineNextStep c k rs w) = fetches w @ [(nextId w, ForBehavioral c)] \<and>
       synth (determineNextStep c k rs w) = synth w \<and>
       timers (determineNextStep c k rs w) = timers w) \<and>
    (\<forall>r. trace (runFetchCont (ForTechnical c) r w) =
           trace w @ [BatchInstalled (batchOf PTechnical r), SynthCancel,
                      SynthSpeak technicalTransitionMessage] \<and>
         questions (st (runFetchCont (ForTechnical c) r w)) = batchOf PTechnical r \<and>
         timers (runFetchCont (ForTechnical c) r w) = timers w \<and>
         synth (runFetchCont (ForTechnical c) r w) =
           map (\<lambda>u. u\<lparr>cancelled := True\<rparr>) (synth w) @
           [\<lparr>uid = nextId w, utext = technicalTransitionMessage, cancelled = False,
             handlers = Some (c, Some (AfterTransition (hd (batchOf PTechnical r))))\<rparr>]) \<and>
    (\<forall>r. trace (runFetchCont (ForBehavioral c) r w) =
           trace w @ [BatchInstalled (batchOf PBehavioral r), SynthCancel,
                      SynthSpeak behavioralTransitionMessage] \<and>
         questions (st (runFetchCont (ForBehavioral c) r w)) = batchOf PBehavioral r \<and>
         timers (runFetchCont (ForBehavioral c) r w) = timers w \<and>
         synth (runFetchCont (ForBehavioral c) r w) =
           map (\<lambda>u. u\<lparr>cancelled := True\<rparr>) (synth w) @
           [\<lparr>uid = nextId w, utext = behavioralTransitionMessage, cancelled = False,
             handlers = Some (c, Some (AfterTransition (hd (batchOf PBehavioral r))))\<rparr>]) \<and>
    (\<forall>p r. (batchFailed r \<longrightarrow> batchOf p r = fallbackQuestions p) \<and>
           (\<forall>s q qs t. responseOk s \<longrightarrow>
              batchOf p (HttpResponse s (Json (Some (q # qs)) t)) = q # qs)) \<and>
    (\<forall>q e. trace (utteranceOnEnd c (Some (AfterTransition q)) w) = trace w \<and>
           timers (utteranceOnEnd c (Some (AfterTransition q)) w) =
             timers w @ [\<lparr>tid = nextId w, due = clock w + 1000,
                          callback = Tracked c (SpeakText (qtext q))\<rparr>] \<and>
           utteranceOnError e c (Some (AfterTransition q)) w =
             utteranceOnEnd c (Some (AfterTransition q)) w) \<and>
    (\<forall>i t. trace (runTimerFn i (Tracked c (SpeakText t)) w) =
             trace w @ [SynthCancel, SynthSpeak t])"
proof -
  have a: "interviewPhase c = Introduction \<and> 3 \<le> introduction k \<longrightarrow>
       trace (determineNextStep c k rs w) = trace w @ [PostGenerateQuestions PTechnical] \<and>
       fetches (determineNextStep c k rs w) = fetches w @ [(nextId w, ForTechnical c)] \<and>
       synth (determineNextStep c k rs w) = synth w \<and>
       timers (determineNextStep c k rs w) = timers w"
    using assms by (simp add: determineNextStep_def newFetch_def)
  have b: "interviewPhase c = Technical \<and> 5 \<le> technical k \<longrightarrow>
       trace (determineNextStep c k rs w) = trace w @ [PostGenerateQuestions PBehavioral] \<and>
       fetches (determineNextStep c k rs w) = fetches w @ [(nextId w, ForBehavioral c)] \<and>
       synth (determineNextStep c k rs w) = synth w \<and>
       timers (determineNextStep c k rs w) = timers w"
    using assms by (simp add: determineNextStep_def newFetch_def)
  have t: "trace (transitionDone c p msg r w) =
           trace w @ [BatchInstalled (batchOf p r), SynthCancel, SynthSpeak msg] \<and>
         questions (st (transitionDone c p msg r w)) = batchOf p r \<and>
         timers (transitionDone c p msg r w) = timers w \<and>
         synth (transitionDone c p msg r w) =
           map (\<lambda>u. u\<lparr>cancelled := True\<rparr>) (synth w) @
           [\<lparr>uid = nextId w, utext = msg, cancelled = False,
             handlers = Some (c, Some (AfterTransition (hd (batchOf p r))))\<rparr>]" for p msg r
    using assms
    by (simp add: transitionDone_eq speakQuestion_def speechSynthesisCancel_def
                  installBatch_def Let_def)
  have d: "\<forall>p r. (batchFailed r \<longrightarrow> batchOf p r = fallbackQuestions p) \<and>
           (\<forall>s q qs t. responseOk s \<longrightarrow>
              batchOf p (HttpResponse s (Json (Some (q # qs)) t)) = q # qs)"
    by (simp add: batchOf_failed)
  have e: "\<forall>q e. trace (utteranceOnEnd c (Some (AfterTransition q)) w) = trace w \<and>
           timers (utteranceOnEnd c (Some (AfterTransition q)) w) =
             timers w @ [\<lparr>tid = nextId w, due = clock w + 1000,
                          callback = Tracked c (SpeakText (qtext q))\<rparr>] \<and>
           utteranceOnError e c (Some (AfterTransition q)) w =
             utteranceOnEnd c (Some (AfterTransition q)) w"
    using assms by (simp add: utteranceOnEnd_def utteranceOnError_def createTimeout_def Let_def)
  have f: "\<forall>i t. trace (runTimerFn i (Tracked c (SpeakText t)) w) =
             trace w @ [SynthCancel, SynthSpeak t]"
    using assms by (simp add: speakQuestion_def speechSynthesisCancel_def Let_def)
  from a b t [of PTechnical technicalTransitionMessage]
       t [of PBehavioral behavioralTransitionMessage] d e f
  show ?thesis by simp
qed

theorem transition_order_witness:
  "\<not> isInterviewEnded (st mounted) \<and>
   trace (runFetchCont (ForTechnical (st mounted)) Rejected mounted) =
     [BatchInstalled (fallbackQuestions PTechnical), SynthCancel,
      SynthSpeak technicalTransitionMessage] \<and>
   trace (runTimerFn 7 (Tracked (st mounted) (SpeakText ''Which database did you use?'')) mounted) =
     [SynthCancel, SynthSpeak ''Which database did you use?'']"
proof -
  have n: "\<not> isInterviewEnded (st mounted)"
    by (simp add: mounted_def initialRender_def)
  have m: "trace mounted = []"
    by (simp add: mounted_def)
  from transition_order [OF n, of _ _ mounted] n m show ?thesis
    by (simp del: fallbackQuestions.simps batchOf.simps runFetchCont.simps runTimerFn.simps)
qed

lemma end_interview_teardown:
  "isInterviewEnded (st (handleEndInterview w)) \<and>
   timeoutsRef (handleEndInterview w) = [] \<and>
   timers (handleEndInterview w) = filter (\<lambda>t. tid t \<notin> set (timeoutsRef w)) (timers w) \<and>
   list_all cancelled (synth (handleEndInterview w)) \<and>
   streamRef (handleEndInterview w) = None \<and>
   tracks (handleEndInterview w) =
     (case streamRef w of None \<Rightarrow> tracks w | Some ids \<Rightarrow> stopTracks ids (tracks w)) \<and>
   postureCheckRef (handleEndInterview w) = None \<and>
   intervals (handleEndInterview w) =
     (case postureCheckRef w of None \<Rightarrow> intervals w
      | Some i \<Rightarrow> filter (\<lambda>j. j \<noteq> i) (intervals w)) \<and>
   trace (handleEndInterview w) = trace w @ [SynthCancel, OnEnd]"
  by (auto simp: handleEndInterview_def Let_def clearAllTimeouts_def speechSynthesisCancel_def
                 list_all_iff split: option.splits)

lemma stopTracks_not_live:
  "t \<in> set (stopTracks ids ts) \<Longrightarrow> trackId t \<in> set ids \<Longrightarrow> \<not> live t"
  by (auto simp: stopTracks_def)

lemma phase_advances_at_budget:
  assumes "\<not> isInterviewEnded c"
  shows "interviewPhase (st (determineNextStep c k rs w)) =
     (if interviewPhase c = Introduction \<and> 3 \<le> introduction k then Technical
      else if interviewPhase c = Technical \<and> 5 \<le> technical k then Behavioral
      else if interviewPhase c = Behavioral \<and> 4 \<le> behavioral k then Ending
      else interviewPhase (st w))"
  using assms
  by (simp add: determineNextStep_def newFetch_def askNextInPhase_def createTimeout_def
                generateNextQuestionInPhase_def endInterview_def speakQuestion_def
                speechSynthesisCancel_def Let_def)

lemma transition_order_end_to_end:
  "map_option (lastActions 6) (run (firstTechnicalQuestion r) mounted) =
     Some [PostGenerateQuestions PTechnical, BatchInstalled (batchOf PTechnical r),
           SynthCancel, SynthSpeak technicalTransitionMessage,
           SynthCancel, SynthSpeak (qtext (hd (batchOf PTechnical r)))]"
  unfolding firstTechnicalQuestion_def introductionSkipped_def trace_defs
  by (simp add: session_defs runFetchCont_batch fallback_folded lastActions_def
           del: fallbackQuestions.simps runFetchCont.simps)

section \<open>Properties of the speech recognition component\<close>

lemma trim_empty_iff: "trim s = [] \<longleftrightarrow> blank s"
proof
  assume "trim s = []"
  then have all: "\<forall>x\<in>set (dropWhile isWhiteSpace s). isWhiteSpace x"
    by (simp add: trim_def dropWhile_eq_Nil_conv)
  have "dropWhile isWhiteSpace s = []"
  proof (rule ccontr)
    assume ne: "dropWhile isWhiteSpace s \<noteq> []"
    then have "\<not> isWhiteSpace (hd (dropWhile isWhiteSpace s))" by (rule hd_dropWhile)
    with all ne show False by (meson hd_in_set)
  qed
  then show "blank s" by (simp add: blank_def list_all_iff dropWhile_eq_Nil_conv)
next
  assume "blank s"
  then have d: "dropWhile isWhiteSpace s = []"
    by (simp add: blank_def list_all_iff)
  show "trim s = []"
    unfolding trim_def d by simp
qed

lemma last_dropWhile_keep: "dropWhile P xs \<noteq> [] \<Longrightarrow> last (dropWhile P xs) = last xs"
  by (induction xs) (auto split: if_splits)

lemma dropWhile_id: "xs \<noteq> [] \<Longrightarrow> \<not> P (hd xs) \<Longrightarrow> dropWhile P xs = xs"
  by (cases xs) auto

lemma trim_idem: "trim (trim s) = trim s"
proof (cases "trim s = []")
  case True
  have "trim [] = []" by (simp add: trim_def)
  with True show ?thesis by simp
next
  case False
  let ?t = "dropWhile isWhiteSpace s"
  let ?u = "dropWhile isWhiteSpace (rev ?t)"
  from False have u: "?u \<noteq> []" by (simp add: trim_def)
  have t: "?t \<noteq> []"
  proof
    assume e: "?t = []"
    have "?u = []" unfolding e by simp
    with u show False by contradiction
  qed
  have hu: "\<not> isWhiteSpace (hd ?u)" using u by (rule hd_dropWhile)
  have "last ?u = last (rev ?t)" using u by (rule last_dropWhile_keep)
  also have "\<dots> = hd ?t" using t by (simp add: last_rev)
  finally have lu: "\<not> isWhiteSpace (last ?u)" using hd_dropWhile [OF t] by simp
  have "dropWhile isWhiteSpace (rev ?u) = rev ?u"
    using u lu dropWhile_id [of "rev ?u" isWhiteSpace] by (simp add: hd_rev)
  then have "trim (rev ?u) = rev (dropWhile isWhiteSpace ?u)" by (simp add: trim_def)
  also have "\<dots> = rev ?u" using dropWhile_id [of ?u isWhiteSpace, OF u hu] by simp
  finally show ?thesis by (simp add: trim_def)
qed

lemma trim_not_blank: "trim s \<noteq> [] \<Longrightarrow> \<not> blank (trim s)"
proof -
  assume a: "trim s \<noteq> []"
  let ?u = "dropWhile isWhiteSpace (rev (dropWhile isWhiteSpace s))"
  from a have "?u \<noteq> []" by (simp add: trim_def)
  then have "\<not> isWhiteSpace (hd ?u)" by (rule hd_dropWhile)
  moreover have "hd ?u \<in> set (trim s)" using \<open>?u \<noteq> []\<close> by (simp add: trim_def)
  ultimately show ?thesis by (auto simp: blank_def list_all_iff)
qed

lemma results_clearTimeoutOpt [simp]: "results (clearTimeoutOpt r a) = results a"
  by (simp add: clearTimeoutOpt_def split: option.splits)

lemma results_adapterClearAllTimeouts [simp]: "results (adapterClearAllTimeouts a) = results a"
  by (simp add: adapterClearAllTimeouts_def Let_def)

lemma results_processTranscript:
  "results (processTranscript txt a) =
     (if isProcessingRef a \<or> blank txt then results a else results a @ [trim txt])"
  by (simp add: processTranscript_def Let_def trim_empty_iff)

lemma results_onresult [simp]: "results (onresult segs a) = results a"
  by (simp add: onresult_def Let_def split: prod.splits)

lemma results_onend [simp]: "results (onend l a) = results a"
  by (simp add: onend_def scheduleRestart_def Let_def)

lemma results_onstart [simp]: "results (onstart a) = results a"
  by (simp add: onstart_def)

lemma results_scheduleRestart [simp]: "results (scheduleRestart d a) = results a"
  by (simp add: scheduleRestart_def Let_def)

lemma results_onerror [simp]: "results (onerror l code a) = results a"
  by (simp add: onerror_def Let_def)

lemma results_cleanup [simp]: "results (cleanup a) = results a"
  by (simp add: cleanup_def Let_def)

lemma results_restartElapsed [simp]: "results (restartElapsed l a) = results a"
  by (simp add: restartElapsed_def)

lemma results_silenceElapsed:
  "results (silenceElapsed a) =
     (if blank (finalTranscriptRef a) \<or> isProcessingRef a then results a
      else results a @ [trim (finalTranscriptRef a)])"
  using trim_not_blank [of "finalTranscriptRef a"]
  by (auto simp: silenceElapsed_def results_processTranscript trim_empty_iff trim_idem)

lemma resultsOk_step:
  "resultsOk a \<Longrightarrow> adapterStep l e a = Some a' \<Longrightarrow> resultsOk a'"
  using trim_not_blank [of "finalTranscriptRef a"]
  by (cases e)
     (auto simp: adapterStep_def resultsOk_def results_silenceElapsed trim_empty_iff Let_def
           split: if_splits list.splits TimerKind.splits)

lemma resultsOk_run:
  "resultsOk a \<Longrightarrow> adapterRun l es a = Some a' \<Longrightarrow> resultsOk a'"
  by (induction es arbitrary: a) (auto split: option.splits dest: resultsOk_step)

lemma handleResponse_answer:
  "currentQuestion c = Some q \<Longrightarrow> \<not> isInterviewEnded c \<Longrightarrow>
     responses (st (handleResponse c t w)) =
       responses c @ [\<lparr>questionId = qid q, question = qtext q, answer = t, timestamp = clock w, duration = 0\<rparr>]"
  by (simp add: handleResponse_def createTimeout_def Let_def)


lemma blank_append [simp]: "blank (x @ y) \<longleftrightarrow> blank x \<and> blank y"
  by (simp add: blank_def)

lemma blank_Nil [simp]: "blank []"
  by (simp add: blank_def)

lemma blank_space [simp]: "blank '' ''"
  by (simp add: blank_def isWhiteSpace_def)

lemma blank_trim [simp]: "blank (trim t) \<longleftrightarrow> blank t"
  using trim_not_blank [of t] trim_empty_iff [of t] by auto



lemma heardHello_eq: "adapterRun True [Started, Result saidHello, Passes 1000] idleAdapter = Some heardHello"
  unfolding heardHello_def by code_simp




lemma clearTimeoutOpt_frame [simp]:
  "isProcessingRef (clearTimeoutOpt r a) = isProcessingRef a"
  "finalTranscriptRef (clearTimeoutOpt r a) = finalTranscriptRef a"
  "stopRequests (clearTimeoutOpt r a) = stopRequests a"
  "silenceTimeoutRef (clearTimeoutOpt r a) = silenceTimeoutRef a"
  "restartTimeoutRef (clearTimeoutOpt r a) = restartTimeoutRef a"
  "now (clearTimeoutOpt r a) = now a"
  "fresh (clearTimeoutOpt r a) = fresh a"
  by (simp_all add: clearTimeoutOpt_def split: option.splits)

lemma adapterClearAllTimeouts_frame [simp]:
  "isProcessingRef (adapterClearAllTimeouts a) = isProcessingRef a"
  "finalTranscriptRef (adapterClearAllTimeouts a) = finalTranscriptRef a"
  "stopRequests (adapterClearAllTimeouts a) = stopRequests a"
  "silenceTimeoutRef (adapterClearAllTimeouts a) = None"
  "restartTimeoutRef (adapterClearAllTimeouts a) = None"
  by (simp_all add: adapterClearAllTimeouts_def Let_def)

lemma scheduleRestart_processing [simp]:
  "isProcessingRef (scheduleRestart d a) = isProcessingRef a"
  by (simp add: scheduleRestart_def Let_def)

lemma onerror_processing [simp]: "isProcessingRef (onerror l code a) = isProcessingRef a"
  by (simp add: onerror_def Let_def)

lemma processing_step:
  "isProcessingRef a \<Longrightarrow> \<not> beginsTurn e \<Longrightarrow> adapterStep l e a = Some a' \<Longrightarrow>
     isProcessingRef a' \<and> results a' = results a"
  by (cases e)
     (auto simp: adapterStep_def onresult_def onend_def clearTimeoutOpt_def silenceElapsed_def
                 restartElapsed_def Let_def
           split: if_splits list.splits TimerKind.splits option.splits)

lemma processing_run:
  "isProcessingRef a \<Longrightarrow> \<not> list_ex beginsTurn es \<Longrightarrow> adapterRun l es a = Some a' \<Longrightarrow>
     isProcessingRef a' \<and> results a' = results a"
proof (induction es arbitrary: a)
  case Nil
  then show ?case by simp
next
  case (Cons e es)
  from Cons.prems obtain a1 where s: "adapterStep l e a = Some a1" and r: "adapterRun l es a1 = Some a'"
    by (auto split: option.splits)
  from Cons.prems s have "isProcessingRef a1 \<and> results a1 = results a"
    by (intro processing_step [of a e l a1]) auto
  with Cons.IH [of a1] Cons.prems r show ?case by auto
qed

lemma step_emits:
  "\<not> beginsTurn e \<Longrightarrow> adapterStep l e a = Some a' \<Longrightarrow>
     results a' = results a \<or> (isProcessingRef a' \<and> length (results a') = length (results a) + 1)"
  by (cases e)
     (auto simp: adapterStep_def results_silenceElapsed silenceElapsed_def processTranscript_def
                 Let_def trim_empty_iff
           split: if_splits list.splits TimerKind.splits)

lemma one_result_per_turn:
  "\<not> list_ex beginsTurn es \<Longrightarrow> adapterRun l es a = Some a' \<Longrightarrow>
     length (results a') \<le> length (results a) + 1"
proof (induction es arbitrary: a)
  case Nil
  then show ?case by simp
next
  case (Cons e es)
  from Cons.prems obtain a1 where s: "adapterStep l e a = Some a1" and r: "adapterRun l es a1 = Some a'"
    by (auto split: option.splits)
  from Cons.prems have ne: "\<not> beginsTurn e" and nes: "\<not> list_ex beginsTurn es" by auto
  from step_emits [OF ne s] show ?case
  proof
    assume "results a1 = results a"
    with Cons.IH [OF nes r] show ?thesis by simp
  next
    assume p: "isProcessingRef a1 \<and> length (results a1) = length (results a) + 1"
    with processing_run [OF _ nes r] show ?thesis by simp
  qed
qed





text \<open>
  C10: transcript finalization returns without calling \<^verbatim>\<open>onResult\<close> when the text trims to
  the empty string, so whatever the recognition events, every text the adapter hands to
  \<^verbatim>\<open>onResult\<close> is non-empty and not white space only, and the Response that
  \<^verbatim>\<open>handleResponse\<close> builds from it carries that non-empty answer.
\<close>

theorem voice_results_never_blank:
  assumes "adapterRun listening es idleAdapter = Some a"
  shows "(\<forall>txt. blank txt \<longrightarrow> processTranscript txt a = a) \<and>
         (blank (finalTranscriptRef a) \<longrightarrow> silenceElapsed a = a) \<and>
         (\<forall>t\<in>set (results a). t \<noteq> [] \<and> \<not> blank t \<and>
            (\<forall>c q w. currentQuestion c = Some q \<and> \<not> isInterviewEnded c \<longrightarrow>
               answer (last (responses (st (handleResponse c t w)))) = t \<and>
               answer (last (responses (st (handleResponse c t w)))) \<noteq> []))"
proof -
  have "resultsOk idleAdapter" by (simp add: resultsOk_def idleAdapter_def)
  from resultsOk_run [OF this assms] have ok: "\<forall>t\<in>set (results a). t \<noteq> [] \<and> \<not> blank t"
    by (simp add: resultsOk_def list_all_iff)
  have p: "\<forall>txt. blank txt \<longrightarrow> processTranscript txt a = a"
    by (simp add: processTranscript_def trim_empty_iff)
  have s: "blank (finalTranscriptRef a) \<longrightarrow> silenceElapsed a = a"
    by (simp add: silenceElapsed_def trim_empty_iff)
  from ok p s show ?thesis by (auto simp: handleResponse_answer)
qed

theorem voice_results_never_blank_witness:
  "adapterRun True helloTurn idleAdapter \<noteq> None \<and>
   results (the (adapterRun True helloTurn idleAdapter)) = [''hello there''] \<and>
   list_all (\<lambda>t. t \<noteq> [] \<and> \<not> blank t) (results (the (adapterRun True helloTurn idleAdapter)))"
proof -
  have r: "adapterRun True helloTurn idleAdapter = Some (the (adapterRun True helloTurn idleAdapter))"
    by code_simp
  have v: "results (the (adapterRun True helloTurn idleAdapter)) = [''hello there'']"
    by code_simp
  from voice_results_never_blank [OF r] v r show ?thesis by (auto simp: list_all_iff)
qed

end
